theory Spec2Isabelle
  imports Main
begin

section \<open>Strings and decimal amounts\<close>

text \<open>
  JavaScript's \<^verbatim>\<open>String.prototype.includes\<close>, used by \<^verbatim>\<open>isRetryableError\<close> and
  \<^verbatim>\<open>isIdempotencyError\<close> of \<^verbatim>\<open>transactions.service.ts\<close>: the argument occurs as a
  contiguous run of the receiver. (The name \<open>includes\<close> is reserved in Isabelle, hence
  \<open>includes_str\<close>.)
\<close>

fun startsWith :: "string \<Rightarrow> string \<Rightarrow> bool" where
  "startsWith s [] = True"
| "startsWith [] (c # cs) = False"
| "startsWith (x # xs) (c # cs) = (x = c \<and> startsWith xs cs)"

fun includes_str :: "string \<Rightarrow> string \<Rightarrow> bool" where
  "includes_str [] sub = (sub = [])"
| "includes_str (x # xs) sub = (startsWith (x # xs) sub \<or> includes_str xs sub)"

text \<open>
  The DTO (\<^verbatim>\<open>create-transaction.dto.ts\<close>) admits an amount only in the format
  \<^verbatim>\<open>/^\d+(\.\d{1,2})?$/\<close>. The store reads the text with \<^verbatim>\<open>CAST(:amount AS NUMERIC)\<close>
  and keeps it in a \<^verbatim>\<open>decimal(10,2)\<close> column; the model counts hundredths, so the cast of
  a text in the DTO's format is exact. Any other text never reaches the service (the
  validation pipe refuses it); the model lets the store reject it as an invalid literal.
  The column's bound of ten digits is not modelled: a committed amount is at most the
  balance it was taken from.
\<close>

definition isDigit :: "char \<Rightarrow> bool" where
  "isDigit c = (c \<in> set ''0123456789'')"

text \<open>The value of a digit: its place among the ten digits.\<close>

definition digitVal :: "char \<Rightarrow> nat" where
  "digitVal c = length (takeWhile (\<lambda>x. x \<noteq> c) ''0123456789'')"

definition digitsVal :: "string \<Rightarrow> nat" where
  "digitsVal s = foldl (\<lambda>acc c. 10 * acc + digitVal c) 0 s"

definition matchesDecimal :: "string \<Rightarrow> bool" where
  "matchesDecimal s =
     (let whole = takeWhile isDigit s; rest = dropWhile isDigit s in
      whole \<noteq> [] \<and>
      (rest = [] \<or>
       (hd rest = CHR ''.'' \<and> list_all isDigit (tl rest) \<and>
        (length (tl rest) = 1 \<or> length (tl rest) = 2))))"

definition castNumeric :: "string \<Rightarrow> int option" where
  "castNumeric s =
     (if matchesDecimal s then
        (let whole = takeWhile isDigit s; frac = tl (dropWhile isDigit s) in
         Some (int (100 * digitsVal whole +
                    (if length frac = 1 then 10 * digitsVal frac else digitsVal frac))))
      else None)"

text \<open>Decimal text of a number, as JavaScript prints an integer and the store a numeric.\<close>

definition digitChar :: "nat \<Rightarrow> char" where
  "digitChar n = ''0123456789'' ! (n mod 10)"

fun showNat :: "nat \<Rightarrow> string" where
  "showNat n = (if n < 10 then [digitChar n] else showNat (n div 10) @ [digitChar n])"

declare showNat.simps [simp del]

definition showInt :: "int \<Rightarrow> string" where
  "showInt i = (if i < 0 then CHR ''-'' # showNat (nat (- i)) else showNat (nat i))"

text \<open>A \<^verbatim>\<open>decimal(10,2)\<close> value read back from the store: always two fractional digits.\<close>

definition formatNumeric :: "int \<Rightarrow> string" where
  "formatNumeric c =
     (let n = nat \<bar>c\<bar> in
      (if c < 0 then ''-'' else '''') @ showNat (n div 100) @ ''.'' @
      [digitChar (n div 10), digitChar n])"

section \<open>Errors\<close>

text \<open>
  The fields of a \<^verbatim>\<open>QueryFailedError\<close> that the service reads. Each may be absent
  (\<^verbatim>\<open>undefined\<close>): \<^verbatim>\<open>pgError.message || ''\<close>, \<^verbatim>\<open>error.constraint?.includes\<close>.
\<close>

record QueryFailed =
  code :: "string option"
  message :: "string option"
  constraint :: "string option"
  detail :: "string option"

text \<open>
  What a call may throw: the two exceptions the service raises itself, the storage layer's
  \<^verbatim>\<open>QueryFailedError\<close>, and any other error of the driver.
\<close>

datatype error =
    NotFoundException string
  | ConflictException string
  | QueryFailedError QueryFailed
  | DriverError string

text \<open>A failure of the storage engine: it never raises the service's own exceptions.\<close>

datatype storage_fault = QueryFault QueryFailed | DriverFault string

fun raise :: "storage_fault \<Rightarrow> error" where
  "raise (QueryFault q) = QueryFailedError q"
| "raise (DriverFault m) = DriverError m"

section \<open>Conflict classifier\<close>

definition isRetryableError :: "error \<Rightarrow> bool" where
  "isRetryableError error =
     (case error of
        QueryFailedError pgError \<Rightarrow>
          (let msg = (case message pgError of None \<Rightarrow> [] | Some m \<Rightarrow> m) in
           code pgError = Some ''40001'' \<or>
           code pgError = Some ''40P01'' \<or>
           includes_str msg ''could not serialize access due to concurrent update'' \<or>
           includes_str msg ''could not serialize access due to read/write dependencies'')
      | _ \<Rightarrow> False)"

definition isIdempotencyError :: "QueryFailed \<Rightarrow> bool" where
  "isIdempotencyError error =
     (code error = Some ''23505'' \<and>
      ((case constraint error of None \<Rightarrow> False | Some c \<Rightarrow> includes_str c ''idempotency'') \<or>
       (case detail error of None \<Rightarrow> False | Some d \<Rightarrow> includes_str d ''idempotency_key'')))"

section \<open>Retry scheduler\<close>

definition MAX_RETRIES :: nat where
  "MAX_RETRIES = 5"

definition RETRY_DELAY_MS :: nat where
  "RETRY_DELAY_MS = 50"

text \<open>
  \<^verbatim>\<open>executeWithRetry(operation, attempt = 1)\<close>. The operation is a thunk with effects, so
  it maps a state to its outcome (\<open>Inl\<close> what it threw, \<open>Inr\<close> what it returned) and the
  state it leaves. The wait between two attempts only suspends the caller
  (\<^verbatim>\<open>baseDelay = RETRY_DELAY_MS * 2^(attempt - 1)\<close> plus a random share of it) and does
  not touch the state.
\<close>

definition baseDelay :: "nat \<Rightarrow> nat" where
  "baseDelay attempt = RETRY_DELAY_MS * 2 ^ (attempt - 1)"

function executeWithRetry ::
  "('s \<Rightarrow> (error + 'a) \<times> 's) \<Rightarrow> nat \<Rightarrow> 's \<Rightarrow> (error + 'a) \<times> 's" where
  "executeWithRetry operation attempt s =
     (let r = operation s in
      case fst r of
        Inr v \<Rightarrow> r
      | Inl error \<Rightarrow>
          if isRetryableError error \<and> attempt < MAX_RETRIES
          then executeWithRetry operation (attempt + 1) (snd r)
          else r)"
  by pat_completeness auto
termination
  by (relation "measure (\<lambda>(operation, attempt, s). MAX_RETRIES - attempt)") auto

declare executeWithRetry.simps [simp del]

text \<open>An operation instrumented with a counter of its invocations.\<close>

definition counted :: "('s \<Rightarrow> 'r \<times> 's) \<Rightarrow> 's \<times> nat \<Rightarrow> 'r \<times> ('s \<times> nat)" where
  "counted operation = (\<lambda>(s, n). (fst (operation s), (snd (operation s), Suc n)))"

section \<open>Data model\<close>

datatype TransactionAction = DEBIT

text \<open>
  The entity \<^verbatim>\<open>TransactionHistory\<close> as the service holds it: \<^verbatim>\<open>amount\<close> is a string
  (the column's transformer is the identity both ways), \<^verbatim>\<open>ts\<close> a time in milliseconds.
  The field \<^verbatim>\<open>id\<close> is written \<open>id'\<close>, since \<open>id\<close> is the identity function of HOL.
\<close>

record TransactionHistory =
  id' :: string
  userId :: int
  action :: TransactionAction
  amount :: string
  idempotencyKey :: string
  ts :: nat

record CreateTransactionDto =
  action :: TransactionAction
  amount :: string

text \<open>
  A row of the table \<^verbatim>\<open>transaction_history(id, user_id, action, amount, idempotency_key, ts)\<close>;
  the amount is the \<^verbatim>\<open>decimal(10,2)\<close> value in hundredths.
\<close>

record row =
  col_id :: string
  col_user_id :: int
  col_action :: TransactionAction
  col_amount :: int
  col_idempotency_key :: string
  col_ts :: nat

text \<open>The entity built from a row that is read back: the amount in the store's text form.\<close>

definition hydrate :: "row \<Rightarrow> TransactionHistory" where
  "hydrate r =
     \<lparr>id' = col_id r, userId = col_user_id r, TransactionHistory.action = col_action r,
      TransactionHistory.amount = formatNumeric (col_amount r),
      idempotencyKey = col_idempotency_key r, ts = col_ts r\<rparr>"

section \<open>The store\<close>

text \<open>
  Every call of the service on the store is recorded, in order: the existence query, the
  opening and the end of a transaction, the conditional update with the number of rows it
  affected (\<open>None\<close> when it failed), the insert with whether it succeeded, the lookup by key.
\<close>

datatype event =
    EvExists int
  | EvBegin
  | EvUpdate int string "nat option"
  | EvSave string bool
  | EvCommit
  | EvRollback
  | EvFindOne string

text \<open>
  The state of the store: the table \<^verbatim>\<open>users\<close> (id to balance, in hundredths), the table
  \<^verbatim>\<open>transaction_history\<close> in insertion order, the calls recorded so far, and the number
  of processor invocations so far.
\<close>

record db =
  users :: "int \<rightharpoonup> int"
  transaction_history :: "row list"
  trace :: "event list"
  attempts :: nat

text \<open>
  What the storage engine contributes to one invocation of the processor and the service
  does not control: the generated id and creation time of an inserted row, and the failure
  it raises at a step, if any (a serialization failure or a deadlock under contention, a
  lost connection, a violated constraint seen through a concurrent transaction).
\<close>

datatype step = AtExists | AtBegin | AtUpdate | AtSave | AtCommit | AtFindOne

record env =
  uuid :: string
  now :: nat
  fault :: "step \<Rightarrow> storage_fault option"

type_synonym engine = "nat \<Rightarrow> env"

definition logEv :: "event \<Rightarrow> db \<Rightarrow> db" where
  "logEv ev d = d\<lparr>trace := trace d @ [ev]\<rparr>"

text \<open>\<^verbatim>\<open>userRepository.exists({ where: { id: userId } })\<close>\<close>

definition repo_exists :: "env \<Rightarrow> int \<Rightarrow> db \<Rightarrow> (error + bool) \<times> db" where
  "repo_exists e uid d =
     (case fault e AtExists of
        Some f \<Rightarrow> (Inl (raise f), logEv (EvExists uid) d)
      | None \<Rightarrow> (Inr (users d uid \<noteq> None), logEv (EvExists uid) d))"

text \<open>The errors of the store itself, with PostgreSQL's codes.\<close>

definition invalidNumeric :: QueryFailed where
  "invalidNumeric =
     \<lparr>code = Some ''22P02'', message = Some ''invalid input syntax for type numeric'',
      constraint = None, detail = None\<rparr>"

definition valueTooLong :: QueryFailed where
  "valueTooLong =
     \<lparr>code = Some ''22001'', message = Some ''value too long for type character varying(255)'',
      constraint = None, detail = None\<rparr>"

text \<open>
  The violation of the unique index on \<^verbatim>\<open>idempotency_key\<close>. The index has a generated
  name (no name is given in the entity), so the model gives it one without the column's
  name in it: the service then recognises the violation by its detail.
\<close>

definition uniqueViolation :: "string \<Rightarrow> QueryFailed" where
  "uniqueViolation key =
     \<lparr>code = Some ''23505'',
      message = Some ''duplicate key value violates unique constraint'',
      constraint = Some ''IDX_unique'',
      detail = Some (''Key (idempotency_key)=('' @ key @ '') already exists.'')\<rparr>"

text \<open>
  \<^verbatim>\<open>UPDATE users SET balance = balance - CAST(:amount AS NUMERIC)
  WHERE id = :userId AND balance >= CAST(:amount AS NUMERIC)\<close>: the result is the number
  of rows affected.
\<close>

definition conditionalUpdate :: "env \<Rightarrow> int \<Rightarrow> string \<Rightarrow> db \<Rightarrow> (error + nat) \<times> db" where
  "conditionalUpdate e uid amt m =
     (case fault e AtUpdate of
        Some f \<Rightarrow> (Inl (raise f), logEv (EvUpdate uid amt None) m)
      | None \<Rightarrow>
          (case castNumeric amt of
             None \<Rightarrow> (Inl (QueryFailedError invalidNumeric), logEv (EvUpdate uid amt None) m)
           | Some a \<Rightarrow>
               (case users m uid of
                  None \<Rightarrow> (Inr 0, logEv (EvUpdate uid amt (Some 0)) m)
                | Some balance \<Rightarrow>
                    if balance \<ge> a
                    then (Inr 1, logEv (EvUpdate uid amt (Some 1))
                                   (m\<lparr>users := (users m)(uid \<mapsto> balance - a)\<rparr>))
                    else (Inr 0, logEv (EvUpdate uid amt (Some 0)) m))))"

text \<open>
  \<^verbatim>\<open>manager.save(TransactionHistory, manager.create(TransactionHistory, {...}))\<close>: one
  insert. The key column is \<^verbatim>\<open>varchar(255)\<close> and unique. The entity returned is the
  one passed in, with the generated \<^verbatim>\<open>id\<close> and \<^verbatim>\<open>ts\<close> filled in; its other fields are not
  read back.
\<close>

definition manager_save ::
  "env \<Rightarrow> int \<Rightarrow> TransactionAction \<Rightarrow> string \<Rightarrow> string \<Rightarrow> db \<Rightarrow> (error + TransactionHistory) \<times> db"
  where
  "manager_save e uid act amt key m =
     (case fault e AtSave of
        Some f \<Rightarrow> (Inl (raise f), logEv (EvSave key False) m)
      | None \<Rightarrow>
          (case castNumeric amt of
             None \<Rightarrow> (Inl (QueryFailedError invalidNumeric), logEv (EvSave key False) m)
           | Some a \<Rightarrow>
               if length key > 255
               then (Inl (QueryFailedError valueTooLong), logEv (EvSave key False) m)
               else if find (\<lambda>r. col_idempotency_key r = key) (transaction_history m) \<noteq> None
               then (Inl (QueryFailedError (uniqueViolation key)), logEv (EvSave key False) m)
               else (Inr \<lparr>id' = uuid e, userId = uid, TransactionHistory.action = act,
                          TransactionHistory.amount = amt, idempotencyKey = key, ts = now e\<rparr>,
                     logEv (EvSave key True)
                       (m\<lparr>transaction_history := transaction_history m @
                            [\<lparr>col_id = uuid e, col_user_id = uid, col_action = act,
                              col_amount = a, col_idempotency_key = key, col_ts = now e\<rparr>]\<rparr>))))"

text \<open>\<^verbatim>\<open>transactionHistoryRepository.findOne({ where: { idempotencyKey } })\<close>\<close>

definition repo_findOne :: "env \<Rightarrow> string \<Rightarrow> db \<Rightarrow> (error + TransactionHistory option) \<times> db" where
  "repo_findOne e key d =
     (case fault e AtFindOne of
        Some f \<Rightarrow> (Inl (raise f), logEv (EvFindOne key) d)
      | None \<Rightarrow>
          (Inr (map_option hydrate
                 (find (\<lambda>r. col_idempotency_key r = key) (transaction_history d))),
           logEv (EvFindOne key) d))"

text \<open>
  \<^verbatim>\<open>dataSource.transaction('SERIALIZABLE', runInTransaction)\<close>: the callback's writes are
  kept when it returns and the commit succeeds, and undone when it throws or the commit
  fails; the error is thrown on.
\<close>

definition rollback :: "db \<Rightarrow> db \<Rightarrow> db" where
  "rollback d m = logEv EvRollback (m\<lparr>users := users d, transaction_history := transaction_history d\<rparr>)"

definition transaction :: "env \<Rightarrow> (db \<Rightarrow> (error + 'a) \<times> db) \<Rightarrow> db \<Rightarrow> (error + 'a) \<times> db" where
  "transaction e runInTransaction d =
     (case fault e AtBegin of
        Some f \<Rightarrow> (Inl (raise f), rollback d (logEv EvBegin d))
      | None \<Rightarrow>
          (case runInTransaction (logEv EvBegin d) of
             (Inl err, m) \<Rightarrow> (Inl err, rollback d m)
           | (Inr v, m) \<Rightarrow>
               (case fault e AtCommit of
                  Some f \<Rightarrow> (Inl (raise f), rollback d m)
                | None \<Rightarrow> (Inr v, logEv EvCommit m))))"

section \<open>Transaction processor\<close>

text \<open>The callback of \<^verbatim>\<open>processTransaction\<close> that runs inside the transaction.\<close>

definition runInTransaction ::
  "env \<Rightarrow> int \<Rightarrow> CreateTransactionDto \<Rightarrow> string \<Rightarrow> db \<Rightarrow> (error + TransactionHistory) \<times> db"
  where
  "runInTransaction e uid dto key m =
     (case conditionalUpdate e uid (amount dto) m of
        (Inl err, m1) \<Rightarrow> (Inl err, m1)
      | (Inr affected, m1) \<Rightarrow>
          if affected = 0 then (Inl (ConflictException ''Insufficient funds''), m1)
          else manager_save e uid (action dto) (amount dto) key m1)"

text \<open>The \<^verbatim>\<open>catch\<close> block of \<^verbatim>\<open>processTransaction\<close>, run on what the transaction threw.\<close>

definition onError :: "env \<Rightarrow> string \<Rightarrow> error \<Rightarrow> db \<Rightarrow> (error + TransactionHistory) \<times> db" where
  "onError e key err d =
     (case err of
        QueryFailedError pgError \<Rightarrow>
          if isIdempotencyError pgError then
            (case repo_findOne e key d of
               (Inl err', d') \<Rightarrow> (Inl err', d')
             | (Inr None, d') \<Rightarrow>
                 (Inl (ConflictException
                         ''Duplicate transaction detected but not found in database''), d')
             | (Inr (Some existing), d') \<Rightarrow> (Inr existing, d'))
          else (Inl err, d)
      | _ \<Rightarrow> (Inl err, d))"

text \<open>
  \<^verbatim>\<open>processTransaction(userId, dto, idempotencyKey)\<close>, one invocation: it takes the
  engine's contribution for this invocation and counts the invocation.
\<close>

definition processTransaction ::
  "engine \<Rightarrow> int \<Rightarrow> CreateTransactionDto \<Rightarrow> string \<Rightarrow> db \<Rightarrow> (error + TransactionHistory) \<times> db"
  where
  "processTransaction W uid dto key d =
     (let e = W (attempts d); d0 = d\<lparr>attempts := Suc (attempts d)\<rparr> in
      case repo_exists e uid d0 of
        (Inl err, d1) \<Rightarrow> (Inl err, d1)
      | (Inr userExists, d1) \<Rightarrow>
          if \<not> userExists
          then (Inl (NotFoundException (''User with id '' @ showInt uid @ '' not found'')), d1)
          else
            (case transaction e (runInTransaction e uid dto key) d1 of
               (Inr saved, d2) \<Rightarrow> (Inr saved, d2)
             | (Inl err, d2) \<Rightarrow> onError e key err d2))"

definition createTransaction ::
  "engine \<Rightarrow> int \<Rightarrow> CreateTransactionDto \<Rightarrow> string \<Rightarrow> db \<Rightarrow> (error + TransactionHistory) \<times> db"
  where
  "createTransaction W uid dto key d = executeWithRetry (processTransaction W uid dto key) 1 d"

section \<open>Notions the properties are stated with\<close>

text \<open>The calls on the store made between two states.\<close>

definition newEvents :: "db \<Rightarrow> db \<Rightarrow> event list" where
  "newEvents d d' = drop (length (trace d)) (trace d')"

text \<open>The state after the existence query of an invocation.\<close>

definition begun :: "int \<Rightarrow> db \<Rightarrow> db" where
  "begun uid d = d\<lparr>attempts := Suc (attempts d), trace := trace d @ [EvExists uid]\<rparr>"

text \<open>The transaction of an invocation that found the user, with what it returns or throws.\<close>

definition attemptScope ::
  "engine \<Rightarrow> int \<Rightarrow> CreateTransactionDto \<Rightarrow> string \<Rightarrow> db \<Rightarrow> (error + TransactionHistory) \<times> db"
  where
  "attemptScope W uid dto key d =
     transaction (W (attempts d)) (runInTransaction (W (attempts d)) uid dto key) (begun uid d)"

text \<open>
  The calls of a trace that lie outside every transaction, that is, not between the
  opening of one and its commit or rollback. The flag says whether a transaction is open.
\<close>

fun outsideFrom :: "bool \<Rightarrow> event list \<Rightarrow> event list" where
  "outsideFrom inTx [] = []"
| "outsideFrom inTx (EvBegin # evs) = outsideFrom True evs"
| "outsideFrom inTx (EvCommit # evs) = outsideFrom False evs"
| "outsideFrom inTx (EvRollback # evs) = outsideFrom False evs"
| "outsideFrom inTx (ev # evs) = (if inTx then outsideFrom inTx evs else ev # outsideFrom inTx evs)"

definition outsideScope :: "event list \<Rightarrow> event list" where
  "outsideScope evs = outsideFrom False evs"

text \<open>The amount, in hundredths, that a call on the store takes from user \<open>u\<close>.\<close>

definition cents :: "string \<Rightarrow> int" where
  "cents amt = (case castNumeric amt of None \<Rightarrow> 0 | Some a \<Rightarrow> a)"

definition debited :: "int \<Rightarrow> event \<Rightarrow> int" where
  "debited u ev =
     (case ev of
        EvUpdate uid amt (Some n) \<Rightarrow> if uid = u \<and> 0 < n then cents amt else 0
      | _ \<Rightarrow> 0)"

text \<open>The sum of the amounts of the conditional updates on \<open>u\<close> that affected a row.\<close>

definition updatedTotal :: "int \<Rightarrow> event list \<Rightarrow> int" where
  "updatedTotal u evs = sum_list (map (debited u) evs)"

text \<open>
  The same sum over the updates whose transaction was committed; \<open>p\<close> is the sum of the
  transaction that is open.
\<close>

fun committedFrom :: "int \<Rightarrow> int \<Rightarrow> event list \<Rightarrow> int" where
  "committedFrom u p [] = 0"
| "committedFrom u p (EvBegin # evs) = committedFrom u 0 evs"
| "committedFrom u p (EvCommit # evs) = p + committedFrom u 0 evs"
| "committedFrom u p (EvRollback # evs) = committedFrom u 0 evs"
| "committedFrom u p (ev # evs) = committedFrom u (p + debited u ev) evs"

definition committedTotal :: "int \<Rightarrow> event list \<Rightarrow> int" where
  "committedTotal u evs = committedFrom u 0 evs"

text \<open>A sequence of requests \<open>(userId, dto, idempotencyKey)\<close>, served one after the other.\<close>

fun runAll :: "engine \<Rightarrow> (int \<times> CreateTransactionDto \<times> string) list \<Rightarrow> db \<Rightarrow> db" where
  "runAll W [] d = d"
| "runAll W ((uid, dto, key) # calls) d = runAll W calls (snd (createTransaction W uid dto key d))"

text \<open>An invocation in which the storage engine raises no failure of its own.\<close>

definition noFault :: "env \<Rightarrow> bool" where
  "noFault e =
     (fault e AtExists = None \<and> fault e AtBegin = None \<and> fault e AtUpdate = None \<and>
      fault e AtSave = None \<and> fault e AtCommit = None \<and> fault e AtFindOne = None)"

text \<open>
  The two failure signatures of the classifier, in PostgreSQL's terms: a serialization
  anomaly (code 40001, or one of its two messages) and a detected deadlock (code 40P01).
\<close>

definition serializationAnomaly :: "QueryFailed \<Rightarrow> bool" where
  "serializationAnomaly q =
     (code q = Some ''40001'' \<or>
      (case message q of
         None \<Rightarrow> False
       | Some m \<Rightarrow>
           includes_str m ''could not serialize access due to concurrent update'' \<or>
           includes_str m ''could not serialize access due to read/write dependencies''))"

definition deadlockDetected :: "QueryFailed \<Rightarrow> bool" where
  "deadlockDetected q = (code q = Some ''40P01'')"

section \<open>Sample inputs\<close>

text \<open>An engine that never fails; it numbers the rows it creates.\<close>

definition calmEngine :: engine where
  "calmEngine n = \<lparr>uuid = ''tx-'' @ showNat n, now = 1700000000000 + n, fault = (\<lambda>_. None)\<rparr>"

text \<open>The test suite's user: id 1 with balance 1000.00, and no history.\<close>

definition testDb :: db where
  "testDb = \<lparr>users = [1 \<mapsto> 100000], transaction_history = [], trace = [], attempts = 0\<rparr>"

definition debit :: "string \<Rightarrow> CreateTransactionDto" where
  "debit amt = \<lparr>action = DEBIT, amount = amt\<rparr>"

text \<open>An operation that always fails with a serialization failure, counting in its state.\<close>

definition serializationFailure :: QueryFailed where
  "serializationFailure =
     \<lparr>code = Some ''40001'', message = Some ''could not serialize access'',
      constraint = None, detail = None\<rparr>"

definition alwaysConflicts :: "nat \<Rightarrow> (error + unit) \<times> nat" where
  "alwaysConflicts s = (Inl (QueryFailedError serializationFailure), Suc s)"

text \<open>
  The store after user 1 has been debited 100.00 under the key \<open>k\<close>, with a second user
  whose balance is 500.00.
\<close>

definition paidDb :: db where
  "paidDb =
     \<lparr>users = [1 \<mapsto> 90000, 2 \<mapsto> 50000],
      transaction_history =
        [\<lparr>col_id = ''tx-0'', col_user_id = 1, col_action = DEBIT, col_amount = 10000,
          col_idempotency_key = ''k'', col_ts = 1700000000000\<rparr>],
      trace = [], attempts = 1\<rparr>"

text \<open>
  An engine under which every insert meets the unique index through a concurrent
  transaction whose row cannot be read yet.
\<close>

definition racingEngine :: engine where
  "racingEngine n =
     \<lparr>uuid = ''tx-'' @ showNat n, now = 1700000000000 + n,
      fault = (\<lambda>st. if st = AtSave then Some (QueryFault (uniqueViolation ''k'')) else None)\<rparr>"

text \<open>The same request, sent twice.\<close>

definition sentTwice :: "(int \<times> CreateTransactionDto \<times> string) list" where
  "sentTwice = [(1, debit ''100'', ''k''), (1, debit ''100'', ''k'')]"

text \<open>
  An engine whose first invocation loses at commit to a concurrent transaction
  (a serialization failure) and whose later invocations meet no failure.
\<close>

definition flakyEngine :: engine where
  "flakyEngine n =
     \<lparr>uuid = ''tx-'' @ showNat n, now = 1700000000000 + n,
      fault = (\<lambda>st. if n = 0 \<and> st = AtCommit then Some (QueryFault serializationFailure)
                     else None)\<rparr>"

text \<open>Requests of the test suite: three debits in sequence; two debits of 600 against 1000.\<close>

definition threeDebits :: "(int \<times> CreateTransactionDto \<times> string) list" where
  "threeDebits = [(1, debit ''100'', ''seq-1''), (1, debit ''200'', ''seq-2''),
                  (1, debit ''150'', ''seq-3'')]"

definition doubleSpend :: "(int \<times> CreateTransactionDto \<times> string) list" where
  "doubleSpend = [(1, debit ''600'', ''double-spend-1''), (1, debit ''600'', ''double-spend-2'')]"

section \<open>Proof devices\<close>

text \<open>The condition of the \<^verbatim>\<open>catch\<close> block under which it looks the key up.\<close>

definition duplicateKey :: "error \<Rightarrow> bool" where
  "duplicateKey err = (case err of QueryFailedError q \<Rightarrow> isIdempotencyError q | _ \<Rightarrow> False)"

text \<open>What the transaction of an invocation can throw.\<close>

definition scopeErrors :: "string \<Rightarrow> error set" where
  "scopeErrors key =
     range raise \<union>
     {QueryFailedError invalidNumeric, ConflictException ''Insufficient funds'',
      QueryFailedError valueTooLong, QueryFailedError (uniqueViolation key)}"

text \<open>
  A state reached from \<open>d\<close> through invocations that left the tables as they were, made
  no call equal to \<open>z\<close> and committed nothing.
\<close>

definition retried :: "event \<Rightarrow> db \<Rightarrow> db \<Rightarrow> bool" where
  "retried z d s =
     (users s = users d \<and> transaction_history s = transaction_history d \<and>
      (\<exists>seg. trace s = trace d @ seg \<and> z \<notin> set seg \<and>
         (\<forall>u rest. committedFrom u 0 (seg @ rest) = committedFrom u 0 rest)))"

section \<open>One invocation of the processor\<close>

lemma raise_simps [simp]:
  "raise f \<noteq> ConflictException m" "raise f \<noteq> NotFoundException m"
  "ConflictException m \<noteq> raise f" "NotFoundException m \<noteq> raise f"
  by (cases f; simp)+

lemma begun_simps [simp]:
  "users (begun uid d) = users d" "transaction_history (begun uid d) = transaction_history d"
  "attempts (begun uid d) = Suc (attempts d)" "trace (begun uid d) = trace d @ [EvExists uid]"
  by (simp_all add: begun_def)

lemma newEvents_append: "trace d' = trace d @ xs \<Longrightarrow> newEvents d d' = xs"
  by (simp add: newEvents_def)

lemma newEvents_prefix: "trace d' = trace d @ xs \<Longrightarrow> trace d' = trace d @ newEvents d d'"
  by (simp add: newEvents_def)

lemma duplicateKey_simps [simp]:
  "\<not> duplicateKey (ConflictException m)" "\<not> duplicateKey (NotFoundException m)"
  "\<not> duplicateKey (DriverError m)" "duplicateKey (QueryFailedError q) = isIdempotencyError q"
  by (simp_all add: duplicateKey_def)

lemmas scope_defs = conditionalUpdate_def manager_save_def
  transaction_def rollback_def logEv_def runInTransaction_def

lemma scope_aborted:
  "transaction e (runInTransaction e uid dto key) d = (Inl err, d2) \<Longrightarrow>
     users d2 = users d \<and> transaction_history d2 = transaction_history d \<and>
     attempts d2 = attempts d \<and>
     trace d2 = trace d @ newEvents d d2 \<and>
     newEvents d d2 \<in> {[EvBegin, EvRollback],
        [EvBegin, EvUpdate uid (amount dto) None, EvRollback],
        [EvBegin, EvUpdate uid (amount dto) (Some 0), EvRollback],
        [EvBegin, EvUpdate uid (amount dto) (Some 1), EvSave key False, EvRollback],
        [EvBegin, EvUpdate uid (amount dto) (Some 1), EvSave key True, EvRollback]} \<and>
     (err = ConflictException ''Insufficient funds'') =
       (newEvents d d2 = [EvBegin, EvUpdate uid (amount dto) (Some 0), EvRollback]) \<and>
     err \<in> scopeErrors key"
proof -
  have "case transaction e (runInTransaction e uid dto key) d of
     (Inr v, d2) \<Rightarrow> True
   | (Inl err, d2) \<Rightarrow>
     users d2 = users d \<and> transaction_history d2 = transaction_history d \<and>
     attempts d2 = attempts d \<and>
     trace d2 = trace d @ newEvents d d2 \<and>
     newEvents d d2 \<in> {[EvBegin, EvRollback],
        [EvBegin, EvUpdate uid (amount dto) None, EvRollback],
        [EvBegin, EvUpdate uid (amount dto) (Some 0), EvRollback],
        [EvBegin, EvUpdate uid (amount dto) (Some 1), EvSave key False, EvRollback],
        [EvBegin, EvUpdate uid (amount dto) (Some 1), EvSave key True, EvRollback]} \<and>
     (err = ConflictException ''Insufficient funds'') =
       (newEvents d d2 = [EvBegin, EvUpdate uid (amount dto) (Some 0), EvRollback]) \<and>
     err \<in> scopeErrors key"
    by (simp add: scope_defs newEvents_def scopeErrors_def
          split: option.split sum.split prod.split)
  then show "transaction e (runInTransaction e uid dto key) d = (Inl err, d2) \<Longrightarrow> ?thesis"
    by simp
qed

lemma scope_committed:
  "transaction e (runInTransaction e uid dto key) d = (Inr v, d2) \<Longrightarrow>
     (\<exists>a b. castNumeric (amount dto) = Some a \<and> users d uid = Some b \<and> a \<le> b \<and>
        users d2 = (users d)(uid \<mapsto> b - a) \<and>
        transaction_history d2 = transaction_history d @
          [\<lparr>col_id = uuid e, col_user_id = uid, col_action = action dto,
            col_amount = a, col_idempotency_key = key, col_ts = now e\<rparr>]) \<and>
     v = \<lparr>id' = uuid e, userId = uid, TransactionHistory.action = action dto,
          TransactionHistory.amount = amount dto, idempotencyKey = key, ts = now e\<rparr> \<and>
     find (\<lambda>r. col_idempotency_key r = key) (transaction_history d) = None \<and>
     length key \<le> 255 \<and>
     trace d2 = trace d @ [EvBegin, EvUpdate uid (amount dto) (Some 1), EvSave key True, EvCommit] \<and>
     attempts d2 = attempts d"
proof -
  have "case transaction e (runInTransaction e uid dto key) d of
     (Inl err, d2) \<Rightarrow> True
   | (Inr v, d2) \<Rightarrow>
     (\<exists>a b. castNumeric (amount dto) = Some a \<and> users d uid = Some b \<and> a \<le> b \<and>
        users d2 = (users d)(uid \<mapsto> b - a) \<and>
        transaction_history d2 = transaction_history d @
          [\<lparr>col_id = uuid e, col_user_id = uid, col_action = action dto,
            col_amount = a, col_idempotency_key = key, col_ts = now e\<rparr>]) \<and>
     v = \<lparr>id' = uuid e, userId = uid, TransactionHistory.action = action dto,
          TransactionHistory.amount = amount dto, idempotencyKey = key, ts = now e\<rparr> \<and>
     find (\<lambda>r. col_idempotency_key r = key) (transaction_history d) = None \<and>
     length key \<le> 255 \<and>
     trace d2 = trace d @ [EvBegin, EvUpdate uid (amount dto) (Some 1), EvSave key True, EvCommit] \<and>
     attempts d2 = attempts d"
    by (simp add: scope_defs split: option.split sum.split prod.split)
  then show "transaction e (runInTransaction e uid dto key) d = (Inr v, d2) \<Longrightarrow> ?thesis"
    by simp
qed

lemma onError_outcome:
  "onError e key err d2 = (r, d') \<Longrightarrow>
     users d' = users d2 \<and> transaction_history d' = transaction_history d2 \<and>
     attempts d' = attempts d2 \<and>
     (if duplicateKey err
      then trace d' = trace d2 @ [EvFindOne key] \<and>
           r = (case fault e AtFindOne of
                  Some f \<Rightarrow> Inl (raise f)
                | None \<Rightarrow>
                   (case find (\<lambda>r. col_idempotency_key r = key) (transaction_history d2) of
                      None \<Rightarrow> Inl (ConflictException
                                ''Duplicate transaction detected but not found in database'')
                    | Some row \<Rightarrow> Inr (hydrate row)))
      else trace d' = trace d2 \<and> r = Inl err)"
proof -
  have "case onError e key err d2 of (r, d') \<Rightarrow>
     users d' = users d2 \<and> transaction_history d' = transaction_history d2 \<and>
     attempts d' = attempts d2 \<and>
     (if duplicateKey err
      then trace d' = trace d2 @ [EvFindOne key] \<and>
           r = (case fault e AtFindOne of
                  Some f \<Rightarrow> Inl (raise f)
                | None \<Rightarrow>
                   (case find (\<lambda>r. col_idempotency_key r = key) (transaction_history d2) of
                      None \<Rightarrow> Inl (ConflictException
                                ''Duplicate transaction detected but not found in database'')
                    | Some row \<Rightarrow> Inr (hydrate row)))
      else trace d' = trace d2 \<and> r = Inl err)"
    by (simp add: onError_def repo_findOne_def logEv_def duplicateKey_def
          split: error.split option.split)
  then show "onError e key err d2 = (r, d') \<Longrightarrow> ?thesis"
    by simp
qed

lemma processTransaction_unfold:
  "processTransaction W uid dto key d =
     (case fault (W (attempts d)) AtExists of
        Some f \<Rightarrow> (Inl (raise f), begun uid d)
      | None \<Rightarrow>
          if users d uid = None
          then (Inl (NotFoundException (''User with id '' @ showInt uid @ '' not found'')),
                begun uid d)
          else (case transaction (W (attempts d))
                       (runInTransaction (W (attempts d)) uid dto key) (begun uid d) of
                  (Inr saved, d2) \<Rightarrow> (Inr saved, d2)
                | (Inl err, d2) \<Rightarrow> onError (W (attempts d)) key err d2))"
  by (simp add: processTransaction_def repo_exists_def logEv_def begun_def Let_def
        split: option.split)

lemma processTransaction_cases [consumes 1, case_names existsFault notFound committed aborted]:
  assumes "processTransaction W uid dto key d = (r, d')"
  obtains
    (existsFault) f where "fault (W (attempts d)) AtExists = Some f" "r = Inl (raise f)"
      "d' = begun uid d"
  | (notFound) "fault (W (attempts d)) AtExists = None" "users d uid = None"
      "r = Inl (NotFoundException (''User with id '' @ showInt uid @ '' not found''))"
      "d' = begun uid d"
  | (committed) v where "fault (W (attempts d)) AtExists = None" "users d uid \<noteq> None"
      "r = Inr v"
      "transaction (W (attempts d)) (runInTransaction (W (attempts d)) uid dto key)
         (begun uid d) = (Inr v, d')"
  | (aborted) err d2 where "fault (W (attempts d)) AtExists = None" "users d uid \<noteq> None"
      "transaction (W (attempts d)) (runInTransaction (W (attempts d)) uid dto key)
         (begun uid d) = (Inl err, d2)"
      "onError (W (attempts d)) key err d2 = (r, d')"
proof (cases "fault (W (attempts d)) AtExists")
  case (Some f)
  with assms show ?thesis
    by (intro existsFault[of f]) (simp_all add: processTransaction_unfold)
next
  case None
  show ?thesis
  proof (cases "users d uid = None")
    case True
    with assms None show ?thesis
      by (intro notFound) (simp_all add: processTransaction_unfold)
  next
    case False
    obtain x d2 where scope:
      "transaction (W (attempts d)) (runInTransaction (W (attempts d)) uid dto key)
         (begun uid d) = (x, d2)"
      by (cases "transaction (W (attempts d)) (runInTransaction (W (attempts d)) uid dto key)
                   (begun uid d)")
    show ?thesis
    proof (cases x)
      case (Inr v)
      with assms None False scope show ?thesis
        by (intro committed[of v]) (simp_all add: processTransaction_unfold)
    next
      case (Inl err)
      with assms None False scope show ?thesis
        by (intro aborted[of err d2]) (simp_all add: processTransaction_unfold)
    qed
  qed
qed

lemma PT_frame:
  assumes "processTransaction W uid dto key d = (r, d')"
  shows "attempts d' = Suc (attempts d)" and "trace d' = trace d @ newEvents d d'"
    and "\<exists>rest. newEvents d d' = EvExists uid # rest"
proof -
  have "attempts d' = Suc (attempts d) \<and> (\<exists>rest. trace d' = trace d @ EvExists uid # rest)"
    using assms
  proof (cases rule: processTransaction_cases)
    case (committed v)
    from scope_committed[OF committed(4)] show ?thesis by simp
  next
    case (aborted err d2)
    from scope_aborted[OF aborted(3)] onError_outcome[OF aborted(4)] show ?thesis
      by (auto split: if_splits)
  qed simp_all
  then show "attempts d' = Suc (attempts d)" and "trace d' = trace d @ newEvents d d'"
    and "\<exists>rest. newEvents d d' = EvExists uid # rest"
    by (auto simp: newEvents_def)
qed

lemma PT_failed:
  assumes "processTransaction W uid dto key d = (Inl err, d')"
  shows "users d' = users d" and "transaction_history d' = transaction_history d"
proof -
  have "users d' = users d \<and> transaction_history d' = transaction_history d"
    using assms
  proof (cases rule: processTransaction_cases)
    case (aborted err d2)
    from scope_aborted[OF aborted(3)] onError_outcome[OF aborted(4)] show ?thesis
      by simp
  qed simp_all
  then show "users d' = users d" and "transaction_history d' = transaction_history d"
    by simp_all
qed

lemma PT_insufficient:
  assumes "processTransaction W uid dto key d = (r, d')"
  shows "(r = Inl (ConflictException ''Insufficient funds'')) =
         (EvUpdate uid (amount dto) (Some 0) \<in> set (newEvents d d'))"
  using assms
proof (cases rule: processTransaction_cases)
  case (existsFault f)
  then show ?thesis by (simp add: newEvents_def)
next
  case notFound
  then show ?thesis by (simp add: newEvents_def)
next
  case (committed v)
  from scope_committed[OF committed(4)] committed(3) show ?thesis
    by (simp add: newEvents_def)
next
  case (aborted err d2)
  let ?S = "newEvents (begun uid d) d2"
  note sc = scope_aborted[OF aborted(3)]
  note oe = onError_outcome[OF aborted(4)]
  have ne: "newEvents d d' = EvExists uid # ?S @ (if duplicateKey err then [EvFindOne key] else [])"
    using sc oe by (intro newEvents_append) (simp split: if_splits)
  have zero: "(EvUpdate uid (amount dto) (Some 0) \<in> set ?S) =
              (err = ConflictException ''Insufficient funds'')"
    using sc by auto
  show ?thesis
  proof (cases "duplicateKey err")
    case True
    then have "err \<noteq> ConflictException ''Insufficient funds''" by auto
    moreover have "r \<noteq> Inl (ConflictException ''Insufficient funds'')"
      using oe True by (simp split: option.splits)
    ultimately show ?thesis using ne zero True by simp
  next
    case False
    with oe have "r = Inl err" by simp
    with ne zero False show ?thesis by simp
  qed
qed

section \<open>The retry loop\<close>

lemma counted_simps:
  "fst (counted op (s, n)) = fst (op s)" "snd (counted op (s, n)) = (snd (op s), Suc n)"
  by (simp_all add: counted_def)

lemma retry_stop:
  "\<forall>e. fst (op s) = Inl e \<longrightarrow> \<not> (isRetryableError e \<and> a < MAX_RETRIES) \<Longrightarrow>
   executeWithRetry op a s = op s"
  by (subst executeWithRetry.simps) (auto simp: Let_def split: sum.splits)

lemma retry_again:
  "fst (op s) = Inl e \<Longrightarrow> isRetryableError e \<Longrightarrow> a < MAX_RETRIES \<Longrightarrow>
   executeWithRetry op a s = executeWithRetry op (Suc a) (snd (op s))"
  by (subst executeWithRetry.simps) (simp add: Let_def)

lemma retry_counted:
  "executeWithRetry (counted op) a (s, n) = (r, (s', n')) \<Longrightarrow> a \<le> MAX_RETRIES \<Longrightarrow>
     executeWithRetry op a s = (r, s') \<and> n < n' \<and>
     n' \<le> n + (Suc MAX_RETRIES - a) \<and>
     (\<forall>e. r = Inl e \<longrightarrow>
        (\<not> isRetryableError e \<or> n' = n + (Suc MAX_RETRIES - a)) \<and>
        (\<exists>s0. op s0 = (Inl e, s')))"
proof (induction "MAX_RETRIES - a" arbitrary: a s n)
  case 0
  then have a: "\<not> a < MAX_RETRIES" by simp
  then have "executeWithRetry (counted op) a (s, n) = counted op (s, n)"
    and "executeWithRetry op a s = op s"
    by (simp_all add: retry_stop)
  with "0.prems" a show ?case
    by (cases "op s") (auto simp: counted_def)
next
  case (Suc k)
  show ?case
  proof (cases "\<exists>e. fst (op s) = Inl e \<and> isRetryableError e")
    case False
    then have "executeWithRetry (counted op) a (s, n) = counted op (s, n)"
      and "executeWithRetry op a s = op s"
      by (simp_all add: retry_stop counted_simps)
    with Suc.prems False show ?thesis
      by (cases "op s") (auto simp: counted_def)
  next
    case True
    then obtain e where e: "fst (op s) = Inl e" "isRetryableError e"
      by blast
    from Suc.hyps have a: "a < MAX_RETRIES" "k = MAX_RETRIES - Suc a" by simp_all
    have "executeWithRetry (counted op) (Suc a) (snd (op s), Suc n) = (r, (s', n'))"
      using Suc.prems(1) e a retry_again[of "counted op" "(s, n)" e a]
      by (simp add: counted_simps)
    with a have "executeWithRetry op (Suc a) (snd (op s)) = (r, s') \<and> Suc n < n' \<and>
        n' \<le> Suc n + (Suc MAX_RETRIES - Suc a) \<and>
        (\<forall>e. r = Inl e \<longrightarrow>
          (\<not> isRetryableError e \<or> n' = Suc n + (Suc MAX_RETRIES - Suc a)) \<and>
          (\<exists>s0. op s0 = (Inl e, s')))"
      by (intro Suc.hyps(1)) simp_all
    moreover have "executeWithRetry op a s = executeWithRetry op (Suc a) (snd (op s))"
      using e a by (simp add: retry_again)
    ultimately show ?thesis
      using a by auto
  qed
qed

text \<open>
  The outcome of the loop is the outcome of its last invocation, which starts in a state
  reached through invocations that failed with a retryable error.
\<close>

lemma retry_path:
  assumes refl: "\<And>s. R s s"
    and trans: "\<And>s t u. R s t \<Longrightarrow> R t u \<Longrightarrow> R s u"
    and step: "\<And>s e s'. op s = (Inl e, s') \<Longrightarrow> isRetryableError e \<Longrightarrow> R s s'"
  shows "\<exists>s0. R s s0 \<and> executeWithRetry op a s = op s0"
proof (induction "MAX_RETRIES - a" arbitrary: a s)
  case 0
  then have "executeWithRetry op a s = op s"
    by (simp add: retry_stop)
  with refl show ?case by blast
next
  case (Suc k)
  show ?case
  proof (cases "\<exists>e. fst (op s) = Inl e \<and> isRetryableError e")
    case False
    then have "executeWithRetry op a s = op s"
      by (simp add: retry_stop)
    with refl show ?thesis by blast
  next
    case True
    then obtain e where e: "fst (op s) = Inl e" "isRetryableError e"
      by blast
    from Suc.hyps have a: "a < MAX_RETRIES" "k = MAX_RETRIES - Suc a" by simp_all
    from e have "R s (snd (op s))"
      by (intro step[of s e]) (simp_all add: prod_eq_iff)
    moreover obtain s0 where "R (snd (op s)) s0"
      "executeWithRetry op (Suc a) (snd (op s)) = op s0"
      using Suc.hyps(1)[OF a(2)] by blast
    moreover have "executeWithRetry op a s = executeWithRetry op (Suc a) (snd (op s))"
      using e a by (simp add: retry_again)
    ultimately show ?thesis
      using trans by metis
  qed
qed

lemma isRetryableError_simps [simp]:
  "\<not> isRetryableError (NotFoundException m)" "\<not> isRetryableError (ConflictException m)"
  "\<not> isRetryableError (DriverError m)"
  by (simp_all add: isRetryableError_def)

lemma createTransaction_once:
  "\<forall>e. fst (processTransaction W uid dto key d) = Inl e \<longrightarrow> \<not> isRetryableError e \<Longrightarrow>
   createTransaction W uid dto key d = processTransaction W uid dto key d"
  by (simp add: createTransaction_def retry_stop)

section \<open>The paths of one invocation\<close>

lemmas attempt_defs = processTransaction_def onError_def repo_exists_def repo_findOne_def
  conditionalUpdate_def manager_save_def transaction_def rollback_def logEv_def
  runInTransaction_def

lemma castNumeric_nonneg: "castNumeric s = Some a \<Longrightarrow> 0 \<le> a"
  by (auto simp: castNumeric_def Let_def split: if_splits)

lemma cents_nonneg: "0 \<le> cents s"
  by (simp add: cents_def castNumeric_nonneg split: option.split)

lemma isIdempotencyError_uniqueViolation [simp]: "isIdempotencyError (uniqueViolation key)"
  by (simp add: isIdempotencyError_def uniqueViolation_def)

lemma isIdempotencyError_others [simp]:
  "\<not> isIdempotencyError invalidNumeric" "\<not> isIdempotencyError valueTooLong"
  by (simp_all add: isIdempotencyError_def invalidNumeric_def valueTooLong_def)

lemma isRetryableError_store [simp]:
  "\<not> isRetryableError (QueryFailedError (uniqueViolation key))"
  "\<not> isRetryableError (QueryFailedError invalidNumeric)"
  "\<not> isRetryableError (QueryFailedError valueTooLong)"
  by (simp_all add: isRetryableError_def uniqueViolation_def invalidNumeric_def valueTooLong_def)

lemma path_notFound:
  assumes "fault (W (attempts d)) AtExists = None" "users d uid = None"
  shows "processTransaction W uid dto key d =
    (Inl (NotFoundException (''User with id '' @ showInt uid @ '' not found'')),
     d\<lparr>attempts := Suc (attempts d), trace := trace d @ [EvExists uid]\<rparr>)"
  using assms by (simp add: processTransaction_unfold begun_def)

lemma path_insufficient:
  assumes "fault (W (attempts d)) AtExists = None" "fault (W (attempts d)) AtBegin = None"
    "fault (W (attempts d)) AtUpdate = None"
    "users d uid = Some b" "castNumeric (amount dto) = Some a" "b < a"
  shows "processTransaction W uid dto key d =
    (Inl (ConflictException ''Insufficient funds''),
     d\<lparr>attempts := Suc (attempts d),
        trace := trace d @ [EvExists uid, EvBegin, EvUpdate uid (amount dto) (Some 0), EvRollback]\<rparr>)"
  using assms by (simp add: attempt_defs Let_def)

lemma path_committed:
  assumes "noFault (W (attempts d))"
    "users d uid = Some b" "castNumeric (amount dto) = Some a" "a \<le> b"
    "length key \<le> 255"
    "find (\<lambda>r. col_idempotency_key r = key) (transaction_history d) = None"
  shows "processTransaction W uid dto key d =
    (Inr \<lparr>id' = uuid (W (attempts d)), userId = uid, TransactionHistory.action = action dto,
          TransactionHistory.amount = amount dto, idempotencyKey = key,
          ts = now (W (attempts d))\<rparr>,
     d\<lparr>attempts := Suc (attempts d),
        users := (users d)(uid \<mapsto> b - a),
        transaction_history := transaction_history d @
          [\<lparr>col_id = uuid (W (attempts d)), col_user_id = uid, col_action = action dto,
            col_amount = a, col_idempotency_key = key, col_ts = now (W (attempts d))\<rparr>],
        trace := trace d @ [EvExists uid, EvBegin, EvUpdate uid (amount dto) (Some 1),
                            EvSave key True, EvCommit]\<rparr>)"
  using assms by (simp add: attempt_defs noFault_def Let_def)

lemma path_replayed:
  assumes "noFault (W (attempts d))"
    "users d uid = Some b" "castNumeric (amount dto) = Some a" "a \<le> b"
    "length key \<le> 255"
    "find (\<lambda>r. col_idempotency_key r = key) (transaction_history d) = Some row"
  shows "processTransaction W uid dto key d =
    (Inr (hydrate row),
     d\<lparr>attempts := Suc (attempts d),
        trace := trace d @ [EvExists uid, EvBegin, EvUpdate uid (amount dto) (Some 1),
                            EvSave key False, EvRollback, EvFindOne key]\<rparr>)"
  using assms by (simp add: attempt_defs noFault_def Let_def)

section \<open>One call of the service\<close>

lemma debited_simps [simp]:
  "debited u (EvExists x) = 0" "debited u EvBegin = 0" "debited u EvCommit = 0"
  "debited u EvRollback = 0" "debited u (EvSave k ok) = 0" "debited u (EvFindOne k) = 0"
  "debited u (EvUpdate uid amt None) = 0" "debited u (EvUpdate uid amt (Some 0)) = 0"
  "debited u (EvUpdate uid amt (Some (Suc n))) = (if uid = u then cents amt else 0)"
  by (simp_all add: debited_def)

text \<open>
  An invocation either commits nothing and leaves the tables as they were, or commits
  exactly the guarded decrement and one row.
\<close>

lemma PT_ledger:
  assumes "processTransaction W uid dto key d = (r, d')"
  shows "(users d' = users d \<and> transaction_history d' = transaction_history d \<and>
          (\<forall>u rest. committedFrom u 0 (newEvents d d' @ rest) = committedFrom u 0 rest)) \<or>
         (\<exists>a b. castNumeric (amount dto) = Some a \<and> users d uid = Some b \<and> a \<le> b \<and>
            users d' = (users d)(uid \<mapsto> b - a) \<and> (\<exists>v. r = Inr v) \<and>
            (\<forall>u rest. committedFrom u 0 (newEvents d d' @ rest) =
               (if u = uid then a else 0) + committedFrom u 0 rest))"
  using assms
proof (cases rule: processTransaction_cases)
  case (existsFault f)
  then show ?thesis by (simp add: newEvents_def)
next
  case notFound
  then show ?thesis by (simp add: newEvents_def)
next
  case (committed v)
  note sc = scope_committed[OF committed(4)]
  then obtain a b where ab: "castNumeric (amount dto) = Some a" "users d uid = Some b" "a \<le> b"
    "users d' = (users d)(uid \<mapsto> b - a)"
    by auto
  have "newEvents d d' =
      [EvExists uid, EvBegin, EvUpdate uid (amount dto) (Some 1), EvSave key True, EvCommit]"
    using sc by (intro newEvents_append) simp
  with ab committed(3) show ?thesis
    by (intro disjI2) (auto simp: cents_def)
next
  case (aborted err d2)
  let ?S = "newEvents (begun uid d) d2"
  note sc = scope_aborted[OF aborted(3)]
  note oe = onError_outcome[OF aborted(4)]
  have ne: "newEvents d d' = EvExists uid # ?S @ (if duplicateKey err then [EvFindOne key] else [])"
    using sc oe by (intro newEvents_append) (simp split: if_splits)
  have "\<forall>u rest. committedFrom u 0 (newEvents d d' @ rest) = committedFrom u 0 rest"
    unfolding ne using sc by auto
  with sc oe show ?thesis by simp
qed

lemma retried_refl: "retried z d d"
  by (simp add: retried_def)

lemma retried_trans: "retried z d s \<Longrightarrow> retried z s t \<Longrightarrow> retried z d t"
  by (auto simp: retried_def)

lemma PT_retried:
  assumes "processTransaction W uid dto key d = (Inl e, d')" "isRetryableError e"
  shows "retried (EvUpdate uid (amount dto) (Some 0)) d d'"
proof -
  from assms(2) have "Inl e \<noteq> (Inl (ConflictException ''Insufficient funds'') :: error + TransactionHistory)"
    by auto
  with PT_insufficient[OF assms(1)]
  have "EvUpdate uid (amount dto) (Some 0) \<notin> set (newEvents d d')" by simp
  moreover from PT_ledger[OF assms(1)]
  have "\<forall>u rest. committedFrom u 0 (newEvents d d' @ rest) = committedFrom u 0 rest"
    by auto
  ultimately show ?thesis
    using PT_failed[OF assms(1)] PT_frame(2)[OF assms(1)]
    by (auto simp: retried_def)
qed

text \<open>
  A call is its last invocation, made in a state that differs from the call's own only by
  the calls recorded for the invocations that were retried.
\<close>

lemma CT_last:
  "\<exists>s0. retried (EvUpdate uid (amount dto) (Some 0)) d s0 \<and>
        createTransaction W uid dto key d = processTransaction W uid dto key s0"
  unfolding createTransaction_def
  by (rule retry_path[where R = "retried (EvUpdate uid (amount dto) (Some 0))"])
     (auto intro: retried_refl retried_trans PT_retried)

lemma CT_frame:
  assumes "createTransaction W uid dto key d = (r, d')"
  shows "trace d' = trace d @ newEvents d d'"
proof -
  obtain s0 where s0: "retried (EvUpdate uid (amount dto) (Some 0)) d s0"
    "processTransaction W uid dto key s0 = (r, d')"
    using CT_last[of uid dto d W key] assms by auto
  from s0(1) obtain seg where "trace s0 = trace d @ seg"
    by (auto simp: retried_def)
  with PT_frame(2)[OF s0(2)] have "trace d' = trace d @ (seg @ newEvents s0 d')"
    by simp
  then show ?thesis
    by (rule newEvents_prefix)
qed

lemma CT_failed:
  assumes "createTransaction W uid dto key d = (Inl err, d')"
  shows "users d' = users d" and "transaction_history d' = transaction_history d"
proof -
  obtain s0 where s0: "retried (EvUpdate uid (amount dto) (Some 0)) d s0"
    "processTransaction W uid dto key s0 = (Inl err, d')"
    using CT_last[of uid dto d W key] assms by auto
  from PT_failed[OF s0(2)] s0(1)
  show "users d' = users d" and "transaction_history d' = transaction_history d"
    by (simp_all add: retried_def)
qed

lemma CT_insufficient:
  assumes "createTransaction W uid dto key d = (r, d')"
  shows "(r = Inl (ConflictException ''Insufficient funds'')) =
         (EvUpdate uid (amount dto) (Some 0) \<in> set (newEvents d d'))"
proof -
  obtain s0 where s0: "retried (EvUpdate uid (amount dto) (Some 0)) d s0"
    "processTransaction W uid dto key s0 = (r, d')"
    using CT_last[of uid dto d W key] assms by auto
  from s0(1) obtain seg where seg: "trace s0 = trace d @ seg"
    "EvUpdate uid (amount dto) (Some 0) \<notin> set seg"
    by (auto simp: retried_def)
  have "newEvents d d' = seg @ newEvents s0 d'"
    using PT_frame(2)[OF s0(2)] seg(1) by (intro newEvents_append) simp
  with seg(2) PT_insufficient[OF s0(2)] show ?thesis by simp
qed

lemma CT_ledger:
  assumes "createTransaction W uid dto key d = (r, d')"
  shows "(users d' = users d \<and> transaction_history d' = transaction_history d \<and>
          (\<forall>u rest. committedFrom u 0 (newEvents d d' @ rest) = committedFrom u 0 rest)) \<or>
         (\<exists>a b. castNumeric (amount dto) = Some a \<and> users d uid = Some b \<and> a \<le> b \<and>
            users d' = (users d)(uid \<mapsto> b - a) \<and> (\<exists>v. r = Inr v) \<and>
            (\<forall>u rest. committedFrom u 0 (newEvents d d' @ rest) =
               (if u = uid then a else 0) + committedFrom u 0 rest))"
proof -
  obtain s0 where s0: "retried (EvUpdate uid (amount dto) (Some 0)) d s0"
    "processTransaction W uid dto key s0 = (r, d')"
    using CT_last[of uid dto d W key] assms by auto
  from s0(1) obtain seg where seg: "trace s0 = trace d @ seg"
    "\<forall>u rest. committedFrom u 0 (seg @ rest) = committedFrom u 0 rest"
    and tables: "users s0 = users d" "transaction_history s0 = transaction_history d"
    by (auto simp: retried_def)
  have ne: "newEvents d d' = seg @ newEvents s0 d'"
    using PT_frame(2)[OF s0(2)] seg(1) by (intro newEvents_append) simp
  from PT_ledger[OF s0(2)] show ?thesis
    unfolding ne using seg(2) tables by simp
qed

text \<open>The paths of an invocation are paths of the call: none of them is retried.\<close>

lemma call_notFound:
  assumes "fault (W (attempts d)) AtExists = None" "users d uid = None"
  shows "createTransaction W uid dto key d =
    (Inl (NotFoundException (''User with id '' @ showInt uid @ '' not found'')),
     d\<lparr>attempts := Suc (attempts d), trace := trace d @ [EvExists uid]\<rparr>)"
  using assms by (subst createTransaction_once) (simp_all add: path_notFound)

lemma call_insufficient:
  assumes "fault (W (attempts d)) AtExists = None" "fault (W (attempts d)) AtBegin = None"
    "fault (W (attempts d)) AtUpdate = None"
    "users d uid = Some b" "castNumeric (amount dto) = Some a" "b < a"
  shows "createTransaction W uid dto key d =
    (Inl (ConflictException ''Insufficient funds''),
     d\<lparr>attempts := Suc (attempts d),
        trace := trace d @ [EvExists uid, EvBegin, EvUpdate uid (amount dto) (Some 0), EvRollback]\<rparr>)"
  using assms by (subst createTransaction_once) (simp_all add: path_insufficient)

lemma call_committed:
  assumes "noFault (W (attempts d))"
    "users d uid = Some b" "castNumeric (amount dto) = Some a" "a \<le> b"
    "length key \<le> 255"
    "find (\<lambda>r. col_idempotency_key r = key) (transaction_history d) = None"
  shows "createTransaction W uid dto key d =
    (Inr \<lparr>id' = uuid (W (attempts d)), userId = uid, TransactionHistory.action = action dto,
          TransactionHistory.amount = amount dto, idempotencyKey = key,
          ts = now (W (attempts d))\<rparr>,
     d\<lparr>attempts := Suc (attempts d),
        users := (users d)(uid \<mapsto> b - a),
        transaction_history := transaction_history d @
          [\<lparr>col_id = uuid (W (attempts d)), col_user_id = uid, col_action = action dto,
            col_amount = a, col_idempotency_key = key, col_ts = now (W (attempts d))\<rparr>],
        trace := trace d @ [EvExists uid, EvBegin, EvUpdate uid (amount dto) (Some 1),
                            EvSave key True, EvCommit]\<rparr>)"
  using assms by (subst createTransaction_once) (simp_all add: path_committed)

lemma call_replayed:
  assumes "noFault (W (attempts d))"
    "users d uid = Some b" "castNumeric (amount dto) = Some a" "a \<le> b"
    "length key \<le> 255"
    "find (\<lambda>r. col_idempotency_key r = key) (transaction_history d) = Some row"
  shows "createTransaction W uid dto key d =
    (Inr (hydrate row),
     d\<lparr>attempts := Suc (attempts d),
        trace := trace d @ [EvExists uid, EvBegin, EvUpdate uid (amount dto) (Some 1),
                            EvSave key False, EvRollback, EvFindOne key]\<rparr>)"
  using assms by (subst createTransaction_once) (simp_all add: path_replayed)

section \<open>Retry scheduler and conflict classifier\<close>

lemmas amount_defs = castNumeric_def matchesDecimal_def isDigit_def digitsVal_def digitVal_def

lemma calmEngine_simps [simp]:
  "fault (calmEngine n) st = None" "noFault (calmEngine n)"
  "uuid (calmEngine n) = ''tx-'' @ showNat n" "now (calmEngine n) = 1700000000000 + n"
  by (simp_all add: calmEngine_def noFault_def)

lemma testDb_simps [simp]:
  "users testDb = [1 \<mapsto> 100000]" "transaction_history testDb = []" "trace testDb = []"
  "attempts testDb = 0"
  by (simp_all add: testDb_def)

lemma debit_simps [simp]: "amount (debit amt) = amt" "action (debit amt) = DEBIT"
  by (simp_all add: debit_def)

text \<open>
  C7. The retry wrapper invokes the operation at most 5 times in total. When it fails, the
  error it throws is the one its last invocation threw, with the state that invocation
  left, and either that error is not retryable or it was the fifth invocation. An
  invocation that fails with an error that is not retryable, or fails as the fifth, ends
  the loop with exactly that error.
\<close>

theorem executeWithRetry_bounded_propagates:
  "(\<forall>r s' n. executeWithRetry (counted operation) 1 (s, 0) = (r, (s', n)) \<longrightarrow>
      executeWithRetry operation 1 s = (r, s') \<and> 1 \<le> n \<and> n \<le> 5 \<and>
      (\<forall>e. r = Inl e \<longrightarrow>
         (\<not> isRetryableError e \<or> n = 5) \<and> (\<exists>s0. operation s0 = (Inl e, s')))) \<and>
   (\<forall>e s1 attempt. operation s = (Inl e, s1) \<and>
      (\<not> isRetryableError e \<or> attempt = MAX_RETRIES) \<longrightarrow>
      executeWithRetry operation attempt s = (Inl e, s1))"
proof (rule conjI)
  show "\<forall>r s' n. executeWithRetry (counted operation) 1 (s, 0) = (r, (s', n)) \<longrightarrow>
      executeWithRetry operation 1 s = (r, s') \<and> 1 \<le> n \<and> n \<le> 5 \<and>
      (\<forall>e. r = Inl e \<longrightarrow>
         (\<not> isRetryableError e \<or> n = 5) \<and> (\<exists>s0. operation s0 = (Inl e, s')))"
  proof (intro allI impI)
    fix r s' n
    assume run: "executeWithRetry (counted operation) 1 (s, 0) = (r, (s', n))"
    from retry_counted[OF run]
    show "executeWithRetry operation 1 s = (r, s') \<and> 1 \<le> n \<and> n \<le> 5 \<and>
        (\<forall>e. r = Inl e \<longrightarrow>
           (\<not> isRetryableError e \<or> n = 5) \<and> (\<exists>s0. operation s0 = (Inl e, s')))"
      by (auto simp: MAX_RETRIES_def)
  qed
next
  show "\<forall>e s1 attempt. operation s = (Inl e, s1) \<and>
      (\<not> isRetryableError e \<or> attempt = MAX_RETRIES) \<longrightarrow>
      executeWithRetry operation attempt s = (Inl e, s1)"
  proof (intro allI impI)
    fix e s1 attempt
    assume "operation s = (Inl e, s1) \<and> (\<not> isRetryableError e \<or> attempt = MAX_RETRIES)"
    then show "executeWithRetry operation attempt s = (Inl e, s1)"
      by (subst retry_stop) auto
  qed
qed

theorem executeWithRetry_bounded_propagates_witness:
  "executeWithRetry (counted alwaysConflicts) 1 (0, 0) =
     (Inl (QueryFailedError serializationFailure), (5, 5)) \<and>
   executeWithRetry alwaysConflicts 1 0 = (Inl (QueryFailedError serializationFailure), 5) \<and>
   isRetryableError (QueryFailedError serializationFailure) \<and>
   alwaysConflicts 4 = (Inl (QueryFailedError serializationFailure), 5) \<and>
   executeWithRetry alwaysConflicts MAX_RETRIES 4 = (Inl (QueryFailedError serializationFailure), 5)"
proof -
  have retryable: "isRetryableError (QueryFailedError serializationFailure)"
    by (simp add: isRetryableError_def serializationFailure_def)
  have run: "executeWithRetry (counted alwaysConflicts) 1 (0, 0) =
     (Inl (QueryFailedError serializationFailure), (5, 5))"
    by (simp add: executeWithRetry.simps counted_def alwaysConflicts_def retryable
          MAX_RETRIES_def Let_def)
  have last: "alwaysConflicts 4 = (Inl (QueryFailedError serializationFailure), 5)"
    by (simp add: alwaysConflicts_def)
  from executeWithRetry_bounded_propagates[of alwaysConflicts 0] run
  have "executeWithRetry alwaysConflicts 1 0 = (Inl (QueryFailedError serializationFailure), 5)"
    by blast
  moreover from executeWithRetry_bounded_propagates[of alwaysConflicts 4] last
  have "executeWithRetry alwaysConflicts MAX_RETRIES 4 =
      (Inl (QueryFailedError serializationFailure), 5)"
    by blast
  ultimately show ?thesis
    using retryable run last by simp
qed

text \<open>
  C8. A failure is retryable exactly when it is a \<^verbatim>\<open>QueryFailedError\<close> whose signature is
  that of a serialization anomaly or of a detected deadlock. The errors the processor
  raises itself (not-found, insufficient-funds, the conflict of the replay lookup) are not
  retryable, and a call whose first invocation raises one of them makes no second
  invocation: it returns what that invocation returned.
\<close>

theorem isRetryableError_only_contention:
  "(isRetryableError err =
      (\<exists>q. err = QueryFailedError q \<and> (serializationAnomaly q \<or> deadlockDetected q))) \<and>
   \<not> isRetryableError (NotFoundException m) \<and>
   \<not> isRetryableError (ConflictException m) \<and>
   (fst (processTransaction W uid dto key d) = Inl (NotFoundException m) \<or>
    fst (processTransaction W uid dto key d) = Inl (ConflictException m) \<longrightarrow>
      createTransaction W uid dto key d = processTransaction W uid dto key d \<and>
      attempts (snd (createTransaction W uid dto key d)) = Suc (attempts d))"
proof -
  have classify: "isRetryableError err =
      (\<exists>q. err = QueryFailedError q \<and> (serializationAnomaly q \<or> deadlockDetected q))"
    by (cases err)
      (auto simp: isRetryableError_def serializationAnomaly_def deadlockDetected_def Let_def
            split: option.splits)
  have once: "createTransaction W uid dto key d = processTransaction W uid dto key d \<and>
      attempts (snd (createTransaction W uid dto key d)) = Suc (attempts d)"
    if own: "fst (processTransaction W uid dto key d) = Inl (NotFoundException m) \<or>
      fst (processTransaction W uid dto key d) = Inl (ConflictException m)"
  proof -
    from own have "createTransaction W uid dto key d = processTransaction W uid dto key d"
      by (intro createTransaction_once) auto
    moreover have "attempts (snd (processTransaction W uid dto key d)) = Suc (attempts d)"
      using PT_frame(1)[of W uid dto key d]
      by (cases "processTransaction W uid dto key d") simp
    ultimately show ?thesis by simp
  qed
  show ?thesis
  proof (intro conjI)
    show "fst (processTransaction W uid dto key d) = Inl (NotFoundException m) \<or>
      fst (processTransaction W uid dto key d) = Inl (ConflictException m) \<longrightarrow>
      createTransaction W uid dto key d = processTransaction W uid dto key d \<and>
      attempts (snd (createTransaction W uid dto key d)) = Suc (attempts d)"
      using once by blast
  qed (simp_all add: classify)
qed

theorem isRetryableError_only_contention_witness:
  "fst (processTransaction calmEngine 1 (debit ''2000'') ''k'' testDb) =
     Inl (ConflictException ''Insufficient funds'') \<and>
   createTransaction calmEngine 1 (debit ''2000'') ''k'' testDb =
     processTransaction calmEngine 1 (debit ''2000'') ''k'' testDb \<and>
   attempts (snd (createTransaction calmEngine 1 (debit ''2000'') ''k'' testDb)) = 1 \<and>
   \<not> isRetryableError (ConflictException ''Insufficient funds'')"
proof -
  have run: "fst (processTransaction calmEngine 1 (debit ''2000'') ''k'' testDb) =
     Inl (ConflictException ''Insufficient funds'')"
    by (subst path_insufficient[where b = 100000 and a = 200000]) (simp_all add: amount_defs)
  from isRetryableError_only_contention[of "ConflictException ''Insufficient funds''"
      "''Insufficient funds''" calmEngine 1 "debit ''2000''" "''k''" testDb] run
  have once: "createTransaction calmEngine 1 (debit ''2000'') ''k'' testDb =
     processTransaction calmEngine 1 (debit ''2000'') ''k'' testDb"
    and count: "attempts (snd (createTransaction calmEngine 1 (debit ''2000'') ''k'' testDb)) =
       Suc (attempts testDb)"
    and own: "\<not> isRetryableError (ConflictException ''Insufficient funds'')"
    by blast+
  from count have "attempts (snd (createTransaction calmEngine 1 (debit ''2000'') ''k'' testDb)) = 1"
    by simp
  with run once own show ?thesis by blast
qed

section \<open>Insufficient funds, atomicity and the guard\<close>

lemma paidDb_simps [simp]:
  "users paidDb = [1 \<mapsto> 90000, 2 \<mapsto> 50000]"
  "transaction_history paidDb =
     [\<lparr>col_id = ''tx-0'', col_user_id = 1, col_action = DEBIT, col_amount = 10000,
       col_idempotency_key = ''k'', col_ts = 1700000000000\<rparr>]"
  "trace paidDb = []" "attempts paidDb = 1"
  by (simp_all add: paidDb_def)

text \<open>
  C3. A call fails with insufficient-funds exactly when one of its conditional updates
  affected zero rows. Whenever a call fails, with this or any other error, the table of
  users and the table of history records are what they were before the call.
\<close>

theorem insufficient_funds_iff_zero_rows_atomic:
  "(fst (createTransaction W uid dto key d) = Inl (ConflictException ''Insufficient funds'')) =
     (EvUpdate uid (amount dto) (Some 0) \<in>
        set (newEvents d (snd (createTransaction W uid dto key d)))) \<and>
   (\<forall>err. fst (createTransaction W uid dto key d) = Inl err \<longrightarrow>
      users (snd (createTransaction W uid dto key d)) = users d \<and>
      transaction_history (snd (createTransaction W uid dto key d)) = transaction_history d)"
proof -
  obtain r d' where run: "createTransaction W uid dto key d = (r, d')"
    by (cases "createTransaction W uid dto key d")
  have "(r = Inl (ConflictException ''Insufficient funds'')) =
     (EvUpdate uid (amount dto) (Some 0) \<in> set (newEvents d d'))"
    by (rule CT_insufficient[OF run])
  moreover have "users d' = users d \<and> transaction_history d' = transaction_history d"
    if "r = Inl err" for err
    using CT_failed[of W uid dto key d err d'] run that by simp
  ultimately show ?thesis
    unfolding run by simp
qed

theorem insufficient_funds_iff_zero_rows_atomic_witness:
  "fst (createTransaction calmEngine 1 (debit ''2000'') ''k'' testDb) =
     Inl (ConflictException ''Insufficient funds'') \<and>
   EvUpdate 1 ''2000'' (Some 0) \<in>
     set (newEvents testDb (snd (createTransaction calmEngine 1 (debit ''2000'') ''k'' testDb))) \<and>
   users (snd (createTransaction calmEngine 1 (debit ''2000'') ''k'' testDb)) = [1 \<mapsto> 100000] \<and>
   transaction_history (snd (createTransaction calmEngine 1 (debit ''2000'') ''k'' testDb)) = []"
proof -
  let ?call = "createTransaction calmEngine 1 (debit ''2000'') ''k'' testDb"
  have failed: "fst ?call = Inl (ConflictException ''Insufficient funds'')"
    by (subst call_insufficient[where b = 100000 and a = 200000]) (simp_all add: amount_defs)
  note claim = insufficient_funds_iff_zero_rows_atomic[of calmEngine 1 "debit ''2000''" "''k''" testDb]
  from claim failed
  have "EvUpdate 1 (amount (debit ''2000'')) (Some 0) \<in> set (newEvents testDb (snd ?call))"
    by blast
  then have zero: "EvUpdate 1 ''2000'' (Some 0) \<in> set (newEvents testDb (snd ?call))"
    by simp
  from claim failed
  have "users (snd ?call) = users testDb" "transaction_history (snd ?call) = transaction_history testDb"
    by blast+
  then have "users (snd ?call) = [1 \<mapsto> 100000]" "transaction_history (snd ?call) = []"
    by simp_all
  with failed zero show ?thesis by blast
qed

text \<open>
  C4. The conditional update decrements the balance by the amount when the balance is at
  least the amount and affects one row; otherwise it affects none and changes nothing.
  So a debit of exactly the balance succeeds, through one conditional update, and leaves
  the balance 0.00; a debit of the balance plus 0.01 fails with insufficient-funds and
  leaves the balance as it was.
\<close>

theorem conditional_update_guard_boundary:
  "(fault e AtUpdate = None \<and> castNumeric amt = Some a \<and> users m uid = Some b \<longrightarrow>
      fst (conditionalUpdate e uid amt m) = Inr (if a \<le> b then 1 else 0) \<and>
      users (snd (conditionalUpdate e uid amt m)) =
        (if a \<le> b then (users m)(uid \<mapsto> b - a) else users m)) \<and>
   (noFault (W (attempts d)) \<and> users d uid = Some b \<and> castNumeric (amount dto) = Some b \<and>
    length key \<le> 255 \<and>
    find (\<lambda>r. col_idempotency_key r = key) (transaction_history d) = None \<longrightarrow>
      (\<exists>saved. fst (createTransaction W uid dto key d) = Inr saved) \<and>
      users (snd (createTransaction W uid dto key d)) uid = Some 0 \<and>
      newEvents d (snd (createTransaction W uid dto key d)) =
        [EvExists uid, EvBegin, EvUpdate uid (amount dto) (Some 1), EvSave key True, EvCommit]) \<and>
   (fault (W (attempts d)) AtExists = None \<and> fault (W (attempts d)) AtBegin = None \<and>
    fault (W (attempts d)) AtUpdate = None \<and>
    users d uid = Some b \<and> castNumeric (amount dto') = Some (b + 1) \<longrightarrow>
      fst (createTransaction W uid dto' key d) = Inl (ConflictException ''Insufficient funds'') \<and>
      users (snd (createTransaction W uid dto' key d)) uid = Some b)"
proof (intro conjI)
  show "fault e AtUpdate = None \<and> castNumeric amt = Some a \<and> users m uid = Some b \<longrightarrow>
      fst (conditionalUpdate e uid amt m) = Inr (if a \<le> b then 1 else 0) \<and>
      users (snd (conditionalUpdate e uid amt m)) =
        (if a \<le> b then (users m)(uid \<mapsto> b - a) else users m)"
    by (simp add: conditionalUpdate_def logEv_def)
next
  show "noFault (W (attempts d)) \<and> users d uid = Some b \<and> castNumeric (amount dto) = Some b \<and>
    length key \<le> 255 \<and>
    find (\<lambda>r. col_idempotency_key r = key) (transaction_history d) = None \<longrightarrow>
      (\<exists>saved. fst (createTransaction W uid dto key d) = Inr saved) \<and>
      users (snd (createTransaction W uid dto key d)) uid = Some 0 \<and>
      newEvents d (snd (createTransaction W uid dto key d)) =
        [EvExists uid, EvBegin, EvUpdate uid (amount dto) (Some 1), EvSave key True, EvCommit]"
    by (simp add: call_committed[where b = b and a = b] newEvents_def)
next
  show "fault (W (attempts d)) AtExists = None \<and> fault (W (attempts d)) AtBegin = None \<and>
    fault (W (attempts d)) AtUpdate = None \<and>
    users d uid = Some b \<and> castNumeric (amount dto') = Some (b + 1) \<longrightarrow>
      fst (createTransaction W uid dto' key d) = Inl (ConflictException ''Insufficient funds'') \<and>
      users (snd (createTransaction W uid dto' key d)) uid = Some b"
    by (simp add: call_insufficient[where b = b and a = "b + 1"])
qed

theorem conditional_update_guard_boundary_witness:
  "fst (conditionalUpdate (calmEngine 0) 1 ''1000'' testDb) = Inr 1 \<and>
   users (snd (conditionalUpdate (calmEngine 0) 1 ''1000'' testDb)) = [1 \<mapsto> 0] \<and>
   (\<exists>saved. fst (createTransaction calmEngine 1 (debit ''1000'') ''exact-balance'' testDb) = Inr saved) \<and>
   users (snd (createTransaction calmEngine 1 (debit ''1000'') ''exact-balance'' testDb)) 1 = Some 0 \<and>
   fst (createTransaction calmEngine 1 (debit ''1000.01'') ''exact-balance'' testDb) =
     Inl (ConflictException ''Insufficient funds'') \<and>
   users (snd (createTransaction calmEngine 1 (debit ''1000.01'') ''exact-balance'' testDb)) 1 =
     Some 100000"
proof -
  have exact: "castNumeric ''1000'' = Some 100000" and above: "castNumeric ''1000.01'' = Some (100000 + 1)"
    by (simp_all add: amount_defs)
  note claim = conditional_update_guard_boundary[of "calmEngine 0" "''1000''" 100000 testDb 1 100000
      calmEngine testDb "debit ''1000''" "''exact-balance''" "debit ''1000.01''"]
  from claim exact
  have "fst (conditionalUpdate (calmEngine 0) 1 ''1000'' testDb) = Inr (if (100000::int) \<le> 100000 then 1 else 0)"
    "users (snd (conditionalUpdate (calmEngine 0) 1 ''1000'' testDb)) =
       (if (100000::int) \<le> 100000 then (users testDb)(1 \<mapsto> 100000 - 100000) else users testDb)"
    by simp_all
  then have update: "fst (conditionalUpdate (calmEngine 0) 1 ''1000'' testDb) = Inr 1"
    "users (snd (conditionalUpdate (calmEngine 0) 1 ''1000'' testDb)) = [1 \<mapsto> 0]"
    by simp_all
  from claim exact
  have whole: "(\<exists>saved. fst (createTransaction calmEngine 1 (debit ''1000'') ''exact-balance'' testDb) = Inr saved)"
    "users (snd (createTransaction calmEngine 1 (debit ''1000'') ''exact-balance'' testDb)) 1 = Some 0"
    by simp_all
  from claim above
  have over: "fst (createTransaction calmEngine 1 (debit ''1000.01'') ''exact-balance'' testDb) =
     Inl (ConflictException ''Insufficient funds'')"
    "users (snd (createTransaction calmEngine 1 (debit ''1000.01'') ''exact-balance'' testDb)) 1 =
     Some 100000"
    by simp_all
  from update whole over show ?thesis by blast
qed

section \<open>Replay on a duplicate key\<close>

lemma racingEngine_simps [simp]:
  "fault (racingEngine n) st =
     (if st = AtSave then Some (QueryFault (uniqueViolation ''k'')) else None)"
  by (simp add: racingEngine_def)

lemma hydrate_simps [simp]:
  "id' (hydrate row) = col_id row" "userId (hydrate row) = col_user_id row"
  "TransactionHistory.action (hydrate row) = col_action row"
  "TransactionHistory.amount (hydrate row) = formatNumeric (col_amount row)"
  "idempotencyKey (hydrate row) = col_idempotency_key row" "ts (hydrate row) = col_ts row"
  by (simp_all add: hydrate_def)

lemmas format_defs = formatNumeric_def showNat.simps digitChar_def

text \<open>
  C5. When the transaction of an invocation throws a uniqueness violation on the
  idempotency key, whichever step raised it, the transaction is rolled back: both tables
  are as before. The processor then looks the key up, after the rollback, and returns the
  stored record as it is, with its own id and time; the tables stay as they were, so no
  record is added. If the lookup finds nothing it throws the conflict
  \<open>Duplicate transaction detected but not found in database\<close>, which is not the
  insufficient-funds error.
\<close>

theorem duplicate_key_replays_or_conflicts:
  assumes "fault (W (attempts d)) AtExists = None" and "users d uid \<noteq> None"
    and "fst (attemptScope W uid dto key d) = Inl (QueryFailedError q)"
    and "isIdempotencyError q"
  shows "users (snd (attemptScope W uid dto key d)) = users d \<and>
    transaction_history (snd (attemptScope W uid dto key d)) = transaction_history d \<and>
    last (trace (snd (attemptScope W uid dto key d))) = EvRollback \<and>
    trace (snd (processTransaction W uid dto key d)) =
      trace (snd (attemptScope W uid dto key d)) @ [EvFindOne key] \<and>
    users (snd (processTransaction W uid dto key d)) = users d \<and>
    transaction_history (snd (processTransaction W uid dto key d)) = transaction_history d \<and>
    fst (processTransaction W uid dto key d) =
      (case fault (W (attempts d)) AtFindOne of
         Some f \<Rightarrow> Inl (raise f)
       | None \<Rightarrow>
          (case find (\<lambda>r. col_idempotency_key r = key) (transaction_history d) of
             None \<Rightarrow> Inl (ConflictException
                       ''Duplicate transaction detected but not found in database'')
           | Some row \<Rightarrow> Inr (hydrate row))) \<and>
    ConflictException ''Duplicate transaction detected but not found in database'' \<noteq>
      ConflictException ''Insufficient funds'' \<and>
    (\<forall>row. id' (hydrate row) = col_id row \<and> ts (hydrate row) = col_ts row)"
proof -
  obtain d2 where scope: "attemptScope W uid dto key d = (Inl (QueryFailedError q), d2)"
    using assms(3) by (cases "attemptScope W uid dto key d") simp
  obtain r d' where run: "processTransaction W uid dto key d = (r, d')"
    by (cases "processTransaction W uid dto key d")
  have handler: "onError (W (attempts d)) key (QueryFailedError q) d2 = (r, d')"
    using run scope assms(1,2)
    by (simp add: processTransaction_unfold attemptScope_def)
  note sc = scope_aborted[OF scope[unfolded attemptScope_def]]
  note oe = onError_outcome[OF handler]
  from sc have rolled: "users d2 = users d" "transaction_history d2 = transaction_history d"
    "last (trace d2) = EvRollback"
    by auto
  from oe assms(4) have after: "users d' = users d2" "transaction_history d' = transaction_history d2"
    "trace d' = trace d2 @ [EvFindOne key]"
    "r = (case fault (W (attempts d)) AtFindOne of
            Some f \<Rightarrow> Inl (raise f)
          | None \<Rightarrow>
             (case find (\<lambda>r. col_idempotency_key r = key) (transaction_history d2) of
                None \<Rightarrow> Inl (ConflictException
                          ''Duplicate transaction detected but not found in database'')
              | Some row \<Rightarrow> Inr (hydrate row)))"
    by simp_all
  show ?thesis
    unfolding scope run fst_conv snd_conv after rolled by simp
qed

theorem duplicate_key_replays_or_conflicts_witness:
  "fst (attemptScope calmEngine 1 (debit ''100'') ''k'' paidDb) =
     Inl (QueryFailedError (uniqueViolation ''k'')) \<and>
   isIdempotencyError (uniqueViolation ''k'') \<and>
   fst (processTransaction calmEngine 1 (debit ''100'') ''k'' paidDb) =
     Inr \<lparr>id' = ''tx-0'', userId = 1, TransactionHistory.action = DEBIT,
          TransactionHistory.amount = ''100.00'', idempotencyKey = ''k'',
          ts = 1700000000000\<rparr> \<and>
   users (snd (processTransaction calmEngine 1 (debit ''100'') ''k'' paidDb)) = users paidDb \<and>
   transaction_history (snd (processTransaction calmEngine 1 (debit ''100'') ''k'' paidDb)) =
     transaction_history paidDb \<and>
   fst (attemptScope racingEngine 1 (debit ''100'') ''k'' testDb) =
     Inl (QueryFailedError (uniqueViolation ''k'')) \<and>
   fst (processTransaction racingEngine 1 (debit ''100'') ''k'' testDb) =
     Inl (ConflictException ''Duplicate transaction detected but not found in database'') \<and>
   users (snd (processTransaction racingEngine 1 (debit ''100'') ''k'' testDb)) = users testDb \<and>
   transaction_history (snd (processTransaction racingEngine 1 (debit ''100'') ''k'' testDb)) = []"
proof -
  have amt: "castNumeric ''100'' = Some 10000"
    by (simp add: amount_defs)
  have stored: "fst (attemptScope calmEngine 1 (debit ''100'') ''k'' paidDb) =
     Inl (QueryFailedError (uniqueViolation ''k''))"
    by (simp add: attemptScope_def scope_defs amt)
  have raced: "fst (attemptScope racingEngine 1 (debit ''100'') ''k'' testDb) =
     Inl (QueryFailedError (uniqueViolation ''k''))"
    by (simp add: attemptScope_def scope_defs amt)
  have dup: "isIdempotencyError (uniqueViolation ''k'')"
    by simp
  have "fst (processTransaction calmEngine 1 (debit ''100'') ''k'' paidDb) = Inr (hydrate
      \<lparr>col_id = ''tx-0'', col_user_id = 1, col_action = DEBIT, col_amount = 10000,
       col_idempotency_key = ''k'', col_ts = 1700000000000\<rparr>)"
    and kept: "users (snd (processTransaction calmEngine 1 (debit ''100'') ''k'' paidDb)) = users paidDb"
      "transaction_history (snd (processTransaction calmEngine 1 (debit ''100'') ''k'' paidDb)) =
         transaction_history paidDb"
    using duplicate_key_replays_or_conflicts[of calmEngine paidDb 1 "debit ''100''" "''k''"
        "uniqueViolation ''k''"] stored dup
    by simp_all
  then have replay: "fst (processTransaction calmEngine 1 (debit ''100'') ''k'' paidDb) =
     Inr \<lparr>id' = ''tx-0'', userId = 1, TransactionHistory.action = DEBIT,
          TransactionHistory.amount = ''100.00'', idempotencyKey = ''k'',
          ts = 1700000000000\<rparr>"
    by (simp add: hydrate_def format_defs)
  have conflict: "fst (processTransaction racingEngine 1 (debit ''100'') ''k'' testDb) =
     Inl (ConflictException ''Duplicate transaction detected but not found in database'')"
    and kept': "users (snd (processTransaction racingEngine 1 (debit ''100'') ''k'' testDb)) = users testDb"
      "transaction_history (snd (processTransaction racingEngine 1 (debit ''100'') ''k'' testDb)) =
         transaction_history testDb"
    using duplicate_key_replays_or_conflicts[of racingEngine testDb 1 "debit ''100''" "''k''"
        "uniqueViolation ''k''"] raced dup
    by simp_all
  from kept'(2) have "transaction_history (snd (processTransaction racingEngine 1 (debit ''100'') ''k'' testDb)) = []"
    by simp
  with stored dup replay kept raced conflict kept'(1) show ?thesis by blast
qed

text \<open>
  C9. On the replay path nothing of the request but the key is compared with the stored
  record: whenever the key is already stored and the conditional update passes its guard,
  the call returns the stored record, whatever user and amount the request names, after
  its own balance mutation was rolled back.
\<close>

theorem replay_ignores_request_fields:
  assumes "noFault (W (attempts d))"
    and "users d uid = Some b" and "castNumeric (amount dto) = Some a" and "a \<le> b"
    and "length key \<le> 255"
    and "find (\<lambda>r. col_idempotency_key r = key) (transaction_history d) = Some row"
  shows "fst (createTransaction W uid dto key d) = Inr (hydrate row) \<and>
    users (snd (createTransaction W uid dto key d)) = users d \<and>
    transaction_history (snd (createTransaction W uid dto key d)) = transaction_history d \<and>
    newEvents d (snd (createTransaction W uid dto key d)) =
      [EvExists uid, EvBegin, EvUpdate uid (amount dto) (Some 1), EvSave key False,
       EvRollback, EvFindOne key]"
  using assms by (simp add: call_replayed newEvents_def)

theorem replay_ignores_request_fields_witness:
  "castNumeric ''5'' = Some 500 \<and>
   find (\<lambda>r. col_idempotency_key r = ''k'') (transaction_history paidDb) =
     Some \<lparr>col_id = ''tx-0'', col_user_id = 1, col_action = DEBIT, col_amount = 10000,
           col_idempotency_key = ''k'', col_ts = 1700000000000\<rparr> \<and>
   fst (createTransaction calmEngine 2 (debit ''5'') ''k'' paidDb) =
     Inr \<lparr>id' = ''tx-0'', userId = 1, TransactionHistory.action = DEBIT,
          TransactionHistory.amount = ''100.00'', idempotencyKey = ''k'',
          ts = 1700000000000\<rparr> \<and>
   users (snd (createTransaction calmEngine 2 (debit ''5'') ''k'' paidDb)) 2 = Some 50000 \<and>
   transaction_history (snd (createTransaction calmEngine 2 (debit ''5'') ''k'' paidDb)) =
     transaction_history paidDb"
proof -
  let ?row = "\<lparr>col_id = ''tx-0'', col_user_id = 1, col_action = DEBIT, col_amount = 10000,
           col_idempotency_key = ''k'', col_ts = 1700000000000\<rparr>"
  have amt: "castNumeric (amount (debit ''5'')) = Some 500"
    by (simp add: amount_defs)
  have found: "find (\<lambda>r. col_idempotency_key r = ''k'') (transaction_history paidDb) = Some ?row"
    by simp
  note claim = replay_ignores_request_fields[of calmEngine paidDb 2 50000 "debit ''5''" 500
      "''k''" ?row]
  from claim amt found
  have res: "fst (createTransaction calmEngine 2 (debit ''5'') ''k'' paidDb) = Inr (hydrate ?row)"
    and kept: "users (snd (createTransaction calmEngine 2 (debit ''5'') ''k'' paidDb)) = users paidDb"
      "transaction_history (snd (createTransaction calmEngine 2 (debit ''5'') ''k'' paidDb)) =
         transaction_history paidDb"
    by simp_all
  from res have res': "fst (createTransaction calmEngine 2 (debit ''5'') ''k'' paidDb) =
     Inr \<lparr>id' = ''tx-0'', userId = 1, TransactionHistory.action = DEBIT,
          TransactionHistory.amount = ''100.00'', idempotencyKey = ''k'',
          ts = 1700000000000\<rparr>"
    by (simp add: hydrate_def format_defs)
  from kept(1) have bal: "users (snd (createTransaction calmEngine 2 (debit ''5'') ''k'' paidDb)) 2 = Some 50000"
    by simp
  from amt have "castNumeric ''5'' = Some 500" by simp
  with found res' bal kept(2) show ?thesis by blast
qed

section \<open>The text of the amount; replay after the balance has dropped\<close>

lemma find_append_None: "find P xs = None \<Longrightarrow> find P (xs @ ys) = find P ys"
  by (induction xs) (auto split: if_splits)

lemma formatNumeric_has_point: "CHR ''.'' \<in> set (formatNumeric c)"
  by (simp add: formatNumeric_def Let_def)

text \<open>
  C10. The record returned by a call that creates it carries the amount as the caller
  wrote it. The stored row holds the number, so a later call with the same key, which
  returns the stored record, carries the amount in the store's form with two fractional
  digits, under the same id and time. When the caller's text has no decimal point (as in
  \<open>100\<close>), the two responses differ in their amount.
\<close>

theorem fresh_amount_verbatim_replay_normalized:
  assumes "noFault (W (attempts d))" and "noFault (W (Suc (attempts d)))"
    and "users d uid = Some b" and "castNumeric (amount dto) = Some a" and "a + a \<le> b"
    and "length key \<le> 255"
    and "find (\<lambda>r. col_idempotency_key r = key) (transaction_history d) = None"
  shows "\<exists>first again.
    fst (createTransaction W uid dto key d) = Inr first \<and>
    fst (createTransaction W uid dto key (snd (createTransaction W uid dto key d))) = Inr again \<and>
    TransactionHistory.amount first = amount dto \<and>
    TransactionHistory.amount again = formatNumeric a \<and>
    id' again = id' first \<and> ts again = ts first \<and>
    (CHR ''.'' \<notin> set (amount dto) \<longrightarrow>
       TransactionHistory.amount again \<noteq> TransactionHistory.amount first)"
proof -
  let ?row = "\<lparr>col_id = uuid (W (attempts d)), col_user_id = uid, col_action = action dto,
      col_amount = a, col_idempotency_key = key, col_ts = now (W (attempts d))\<rparr>"
  let ?d1 = "snd (createTransaction W uid dto key d)"
  from castNumeric_nonneg[OF assms(4)] assms(5) have le: "a \<le> b" "a \<le> b - a"
    by simp_all
  have first: "createTransaction W uid dto key d =
    (Inr \<lparr>id' = uuid (W (attempts d)), userId = uid, TransactionHistory.action = action dto,
          TransactionHistory.amount = amount dto, idempotencyKey = key,
          ts = now (W (attempts d))\<rparr>,
     d\<lparr>attempts := Suc (attempts d),
        users := (users d)(uid \<mapsto> b - a),
        transaction_history := transaction_history d @ [?row],
        trace := trace d @ [EvExists uid, EvBegin, EvUpdate uid (amount dto) (Some 1),
                            EvSave key True, EvCommit]\<rparr>)"
    using assms le by (intro call_committed) simp_all
  have d1: "attempts ?d1 = Suc (attempts d)" "users ?d1 uid = Some (b - a)"
    "find (\<lambda>r. col_idempotency_key r = key) (transaction_history ?d1) = Some ?row"
    using assms(7) by (simp_all add: first find_append_None)
  have again: "fst (createTransaction W uid dto key ?d1) = Inr (hydrate ?row)"
    using assms(2,4,6) le(2) d1
    by (subst call_replayed[where b = "b - a" and a = a and row = ?row]) simp_all
  have "CHR ''.'' \<notin> set (amount dto) \<longrightarrow> formatNumeric a \<noteq> amount dto"
    using formatNumeric_has_point[of a] by auto
  then show ?thesis
    unfolding again by (simp add: first)
qed

theorem fresh_amount_verbatim_replay_normalized_witness:
  "castNumeric ''100'' = Some 10000 \<and>
   (\<exists>first again.
      fst (createTransaction calmEngine 1 (debit ''100'') ''test-idempotent-1'' testDb) =
        Inr first \<and>
      fst (createTransaction calmEngine 1 (debit ''100'') ''test-idempotent-1''
             (snd (createTransaction calmEngine 1 (debit ''100'') ''test-idempotent-1'' testDb))) =
        Inr again \<and>
      TransactionHistory.amount first = ''100'' \<and>
      TransactionHistory.amount again = ''100.00'' \<and>
      id' again = id' first \<and> ts again = ts first \<and>
      TransactionHistory.amount again \<noteq> TransactionHistory.amount first)"
proof -
  have amt: "castNumeric (amount (debit ''100'')) = Some 10000"
    by (simp add: amount_defs)
  have text_form: "formatNumeric 10000 = ''100.00''"
    by (simp add: format_defs)
  from fresh_amount_verbatim_replay_normalized[of calmEngine testDb 1 100000 "debit ''100''"
      10000 "''test-idempotent-1''"] amt
  obtain first again where
    "fst (createTransaction calmEngine 1 (debit ''100'') ''test-idempotent-1'' testDb) =
       Inr first"
    "fst (createTransaction calmEngine 1 (debit ''100'') ''test-idempotent-1''
            (snd (createTransaction calmEngine 1 (debit ''100'') ''test-idempotent-1'' testDb))) =
       Inr again"
    "TransactionHistory.amount first = amount (debit ''100'')"
    "TransactionHistory.amount again = formatNumeric 10000"
    "id' again = id' first" "ts again = ts first"
    "CHR ''.'' \<notin> set (amount (debit ''100'')) \<longrightarrow>
       TransactionHistory.amount again \<noteq> TransactionHistory.amount first"
    by auto
  moreover from amt have "castNumeric ''100'' = Some 10000" by simp
  ultimately show ?thesis
    unfolding text_form by (intro conjI exI[of _ first] exI[of _ again]) simp_all
qed

text \<open>
  C2, at the input where the code departs from it: user 1 has 1000.00 and the request
  (DEBIT, 600, key \<open>k\<close>) is sent twice. The first call creates the record and leaves
  400.00. The second call's conditional update affects no row, since 400.00 is less than
  600, so the call fails with insufficient-funds before the insert could meet the stored
  key: the second response does not carry the record of the first. One record exists and
  the balance was decremented once.
\<close>

theorem replay_fails_when_balance_dropped:
  "fst (createTransaction calmEngine 1 (debit ''600'') ''k'' testDb) =
     Inr \<lparr>id' = ''tx-0'', userId = 1, TransactionHistory.action = DEBIT,
          TransactionHistory.amount = ''600'', idempotencyKey = ''k'',
          ts = 1700000000000\<rparr> \<and>
   users (snd (createTransaction calmEngine 1 (debit ''600'') ''k'' testDb)) 1 = Some 40000 \<and>
   fst (createTransaction calmEngine 1 (debit ''600'') ''k''
          (snd (createTransaction calmEngine 1 (debit ''600'') ''k'' testDb))) =
     Inl (ConflictException ''Insufficient funds'') \<and>
   users (snd (createTransaction calmEngine 1 (debit ''600'') ''k''
          (snd (createTransaction calmEngine 1 (debit ''600'') ''k'' testDb)))) 1 = Some 40000 \<and>
   length (transaction_history (snd (createTransaction calmEngine 1 (debit ''600'') ''k''
          (snd (createTransaction calmEngine 1 (debit ''600'') ''k'' testDb))))) = 1"
proof -
  have amt: "castNumeric ''600'' = Some 60000"
    by (simp add: amount_defs)
  have first: "createTransaction calmEngine 1 (debit ''600'') ''k'' testDb =
    (Inr \<lparr>id' = ''tx-0'', userId = 1, TransactionHistory.action = DEBIT,
          TransactionHistory.amount = ''600'', idempotencyKey = ''k'',
          ts = 1700000000000\<rparr>,
     testDb\<lparr>attempts := 1,
        users := [1 \<mapsto> 40000],
        transaction_history :=
          [\<lparr>col_id = ''tx-0'', col_user_id = 1, col_action = DEBIT,
            col_amount = 60000, col_idempotency_key = ''k'', col_ts = 1700000000000\<rparr>],
        trace := [EvExists 1, EvBegin, EvUpdate 1 ''600'' (Some 1), EvSave ''k'' True, EvCommit]\<rparr>)"
    by (subst call_committed[where b = 100000 and a = 60000])
       (simp_all add: amt showNat.simps digitChar_def)
  show ?thesis
    unfolding first fst_conv snd_conv
    by (subst call_insufficient[where b = 40000 and a = 60000] |
        simp add: amt)+
qed

section \<open>Where the existence check runs\<close>

text \<open>
  C6 as stated does not hold: in an invocation that debits user 1, the calls on the store
  are the existence query, then the opening of the transaction, the update, the insert and
  the commit. The existence query lies outside the transaction.
\<close>

theorem existence_check_outside_scope:
  "newEvents testDb (snd (processTransaction calmEngine 1 (debit ''100'') ''k'' testDb)) =
     [EvExists 1, EvBegin, EvUpdate 1 ''100'' (Some 1), EvSave ''k'' True, EvCommit] \<and>
   outsideScope (newEvents testDb
     (snd (processTransaction calmEngine 1 (debit ''100'') ''k'' testDb))) \<noteq> []"
proof -
  have amt: "castNumeric ''100'' = Some 10000"
    by (simp add: amount_defs)
  have "newEvents testDb (snd (processTransaction calmEngine 1 (debit ''100'') ''k'' testDb)) =
     [EvExists 1, EvBegin, EvUpdate 1 ''100'' (Some 1), EvSave ''k'' True, EvCommit]"
    by (subst path_committed[where b = 100000 and a = 10000])
       (simp_all add: amt newEvents_def)
  then show ?thesis
    by (simp add: outsideScope_def)
qed

text \<open>
  C6, amended. In every invocation the existence query is the first call on the store and
  lies outside the transaction; at most one transaction is opened; the only other call
  outside it is the lookup by key after a rollback, so the conditional update and the
  insert lie inside it. When the user does not exist the invocation fails with not-found,
  the existence query is its only call on the store (no transaction is opened) and both
  tables are unchanged.
\<close>

theorem existence_check_then_one_scope:
  "(\<exists>rest. newEvents d (snd (processTransaction W uid dto key d)) = EvExists uid # rest \<and>
      EvExists uid \<notin> set rest) \<and>
   outsideScope (newEvents d (snd (processTransaction W uid dto key d))) =
     EvExists uid #
       (if EvFindOne key \<in> set (newEvents d (snd (processTransaction W uid dto key d)))
        then [EvFindOne key] else []) \<and>
   length (filter (\<lambda>ev. ev = EvBegin) (newEvents d (snd (processTransaction W uid dto key d)))) \<le> 1 \<and>
   (fault (W (attempts d)) AtExists = None \<and> users d uid = None \<longrightarrow>
      fst (processTransaction W uid dto key d) =
        Inl (NotFoundException (''User with id '' @ showInt uid @ '' not found'')) \<and>
      newEvents d (snd (processTransaction W uid dto key d)) = [EvExists uid] \<and>
      users (snd (processTransaction W uid dto key d)) = users d \<and>
      transaction_history (snd (processTransaction W uid dto key d)) = transaction_history d)"
proof -
  obtain r d' where run: "processTransaction W uid dto key d = (r, d')"
    by (cases "processTransaction W uid dto key d")
  have parts: "(\<exists>rest. newEvents d d' = EvExists uid # rest \<and> EvExists uid \<notin> set rest) \<and>
      outsideScope (newEvents d d') =
        EvExists uid # (if EvFindOne key \<in> set (newEvents d d') then [EvFindOne key] else []) \<and>
      length (filter (\<lambda>ev. ev = EvBegin) (newEvents d d')) \<le> 1"
    using run
  proof (cases rule: processTransaction_cases)
    case (existsFault f)
    then show ?thesis by (simp add: newEvents_def outsideScope_def)
  next
    case notFound
    then show ?thesis by (simp add: newEvents_def outsideScope_def)
  next
    case (committed v)
    from scope_committed[OF committed(4)]
    have "newEvents d d' =
        [EvExists uid, EvBegin, EvUpdate uid (amount dto) (Some 1), EvSave key True, EvCommit]"
      by (intro newEvents_append) simp
    then show ?thesis by (simp add: outsideScope_def)
  next
    case (aborted err d2)
    let ?S = "newEvents (begun uid d) d2"
    note sc = scope_aborted[OF aborted(3)]
    note oe = onError_outcome[OF aborted(4)]
    have ne: "newEvents d d' = EvExists uid # ?S @ (if duplicateKey err then [EvFindOne key] else [])"
      using sc oe by (intro newEvents_append) (simp split: if_splits)
    from sc have "?S \<in> {[EvBegin, EvRollback],
        [EvBegin, EvUpdate uid (amount dto) None, EvRollback],
        [EvBegin, EvUpdate uid (amount dto) (Some 0), EvRollback],
        [EvBegin, EvUpdate uid (amount dto) (Some 1), EvSave key False, EvRollback],
        [EvBegin, EvUpdate uid (amount dto) (Some 1), EvSave key True, EvRollback]}"
      by blast
    then show ?thesis
      unfolding ne by (auto simp: outsideScope_def)
  qed
  have notFound: "r = Inl (NotFoundException (''User with id '' @ showInt uid @ '' not found'')) \<and>
      newEvents d d' = [EvExists uid] \<and> users d' = users d \<and>
      transaction_history d' = transaction_history d"
    if "fault (W (attempts d)) AtExists = None" "users d uid = None"
    using run that path_notFound[of W d uid dto key] by (auto simp: newEvents_def)
  from parts notFound show ?thesis
    unfolding run fst_conv snd_conv by blast
qed

theorem existence_check_then_one_scope_witness:
  "fault (calmEngine (attempts testDb)) AtExists = None \<and> users testDb 99999 = None \<and>
   fst (processTransaction calmEngine 99999 (debit ''100'') ''nonexistent-user-1'' testDb) =
     Inl (NotFoundException ''User with id 99999 not found'') \<and>
   newEvents testDb
     (snd (processTransaction calmEngine 99999 (debit ''100'') ''nonexistent-user-1'' testDb)) =
     [EvExists 99999] \<and>
   users (snd (processTransaction calmEngine 99999 (debit ''100'') ''nonexistent-user-1'' testDb)) =
     users testDb \<and>
   transaction_history
     (snd (processTransaction calmEngine 99999 (debit ''100'') ''nonexistent-user-1'' testDb)) = []"
proof -
  have pre: "fault (calmEngine (attempts testDb)) AtExists = None" "users testDb 99999 = None"
    by simp_all
  have msg: "''User with id '' @ showInt 99999 @ '' not found'' = ''User with id 99999 not found''"
    by (simp add: showInt_def showNat.simps digitChar_def)
  from existence_check_then_one_scope[of testDb calmEngine 99999 "debit ''100''"
      "''nonexistent-user-1''"] pre
  have "fst (processTransaction calmEngine 99999 (debit ''100'') ''nonexistent-user-1'' testDb) =
      Inl (NotFoundException (''User with id '' @ showInt 99999 @ '' not found''))"
    and rest: "newEvents testDb
     (snd (processTransaction calmEngine 99999 (debit ''100'') ''nonexistent-user-1'' testDb)) =
     [EvExists 99999]"
    "users (snd (processTransaction calmEngine 99999 (debit ''100'') ''nonexistent-user-1'' testDb)) =
     users testDb"
    "transaction_history
     (snd (processTransaction calmEngine 99999 (debit ''100'') ''nonexistent-user-1'' testDb)) =
     transaction_history testDb"
    by blast+
  then have res: "fst (processTransaction calmEngine 99999 (debit ''100'') ''nonexistent-user-1'' testDb) =
     Inl (NotFoundException ''User with id 99999 not found'')"
    unfolding msg by simp
  from rest(3) have "transaction_history
     (snd (processTransaction calmEngine 99999 (debit ''100'') ''nonexistent-user-1'' testDb)) = []"
    by simp
  with pre res rest(1,2) show ?thesis by blast
qed

section \<open>The balance over a sequence of calls\<close>

lemma newEvents_self [simp]: "newEvents d d = []"
  by (simp add: newEvents_def)

text \<open>
  Over any sequence of calls the balance of a user stays non-negative and drops by what
  the committed updates on that user took.
\<close>

lemma runAll_ledger:
  "users d u = Some b \<Longrightarrow> 0 \<le> b \<Longrightarrow>
   \<exists>b'. users (runAll W calls d) u = Some b' \<and> 0 \<le> b' \<and>
     trace (runAll W calls d) = trace d @ newEvents d (runAll W calls d) \<and>
     (\<forall>rest. committedFrom u 0 (newEvents d (runAll W calls d) @ rest) =
        (b - b') + committedFrom u 0 rest)"
proof (induction calls arbitrary: d b)
  case Nil
  then show ?case by simp
next
  case (Cons c calls)
  obtain uid dto key where c: "c = (uid, dto, key)"
    by (cases c)
  obtain r d1 where call: "createTransaction W uid dto key d = (r, d1)"
    by (cases "createTransaction W uid dto key d")
  note frame = CT_frame[OF call]
  have "\<exists>b1. users d1 u = Some b1 \<and> 0 \<le> b1 \<and>
    (\<forall>rest. committedFrom u 0 (newEvents d d1 @ rest) = (b - b1) + committedFrom u 0 rest)"
    using CT_ledger[OF call]
  proof (elim disjE exE conjE)
    assume "users d1 = users d"
      "\<forall>u rest. committedFrom u 0 (newEvents d d1 @ rest) = committedFrom u 0 rest"
    with Cons.prems show ?thesis
      by (intro exI[of _ b]) simp
  next
    fix a b2
    assume paid: "users d uid = Some b2" "a \<le> b2" "users d1 = (users d)(uid \<mapsto> b2 - a)"
      "\<forall>u rest. committedFrom u 0 (newEvents d d1 @ rest) =
         (if u = uid then a else 0) + committedFrom u 0 rest"
    show ?thesis
    proof (cases "u = uid")
      case True
      with paid Cons.prems show ?thesis
        by (intro exI[of _ "b - a"]) simp
    next
      case False
      with paid Cons.prems show ?thesis
        by (intro exI[of _ b]) simp
    qed
  qed
  then obtain b1 where b1: "users d1 u = Some b1" "0 \<le> b1"
    "\<forall>rest. committedFrom u 0 (newEvents d d1 @ rest) = (b - b1) + committedFrom u 0 rest"
    by blast
  from Cons.IH[OF b1(1,2)]
  obtain b' where b': "users (runAll W calls d1) u = Some b'" "0 \<le> b'"
    "trace (runAll W calls d1) = trace d1 @ newEvents d1 (runAll W calls d1)"
    "\<forall>rest. committedFrom u 0 (newEvents d1 (runAll W calls d1) @ rest) =
        (b1 - b') + committedFrom u 0 rest"
    by blast
  have ne: "newEvents d (runAll W calls d1) = newEvents d d1 @ newEvents d1 (runAll W calls d1)"
    using frame b'(3) by (intro newEvents_append) simp
  have run: "runAll W (c # calls) d = runAll W calls d1"
    by (simp add: c call)
  show ?case
    unfolding run ne using b' b1(3) frame
    by (intro exI[of _ b']) simp
qed

lemma sentTwice_run:
  "runAll calmEngine sentTwice testDb =
     testDb\<lparr>attempts := 2, users := [1 \<mapsto> 90000],
       transaction_history :=
         [\<lparr>col_id = ''tx-0'', col_user_id = 1, col_action = DEBIT, col_amount = 10000,
           col_idempotency_key = ''k'', col_ts = 1700000000000\<rparr>],
       trace := [EvExists 1, EvBegin, EvUpdate 1 ''100'' (Some 1), EvSave ''k'' True, EvCommit,
                 EvExists 1, EvBegin, EvUpdate 1 ''100'' (Some 1), EvSave ''k'' False,
                 EvRollback, EvFindOne ''k'']\<rparr>"
proof -
  have amt: "castNumeric ''100'' = Some 10000"
    by (simp add: amount_defs)
  have first: "createTransaction calmEngine 1 (debit ''100'') ''k'' testDb =
    (Inr \<lparr>id' = ''tx-0'', userId = 1, TransactionHistory.action = DEBIT,
          TransactionHistory.amount = ''100'', idempotencyKey = ''k'',
          ts = 1700000000000\<rparr>,
     testDb\<lparr>attempts := 1,
        users := [1 \<mapsto> 90000],
        transaction_history :=
          [\<lparr>col_id = ''tx-0'', col_user_id = 1, col_action = DEBIT,
            col_amount = 10000, col_idempotency_key = ''k'', col_ts = 1700000000000\<rparr>],
        trace := [EvExists 1, EvBegin, EvUpdate 1 ''100'' (Some 1), EvSave ''k'' True, EvCommit]\<rparr>)"
    by (subst call_committed[where b = 100000 and a = 10000])
       (simp_all add: amt showNat.simps digitChar_def)
  show ?thesis
    unfolding sentTwice_def runAll.simps first snd_conv
    by (subst call_replayed[where b = 90000 and a = 10000 and
          row = "\<lparr>col_id = ''tx-0'', col_user_id = 1, col_action = DEBIT,
            col_amount = 10000, col_idempotency_key = ''k'', col_ts = 1700000000000\<rparr>"])
       (simp_all add: amt)
qed

text \<open>
  C1 as stated does not hold: when the same request is sent twice, the conditional update
  of the second call passes its guard and affects a row, and is then rolled back on the
  duplicate key. The updates that affected a row sum to 200.00; the balance dropped by
  100.00.
\<close>

theorem balance_not_minus_updated_total:
  "users (runAll calmEngine sentTwice testDb) 1 = Some 90000 \<and>
   updatedTotal 1 (newEvents testDb (runAll calmEngine sentTwice testDb)) = 20000 \<and>
   users (runAll calmEngine sentTwice testDb) 1 \<noteq>
     Some (100000 - updatedTotal 1 (newEvents testDb (runAll calmEngine sentTwice testDb)))"
proof -
  have amt: "cents ''100'' = 10000"
    by (simp add: cents_def amount_defs)
  show ?thesis
    by (simp add: sentTwice_run newEvents_def updatedTotal_def amt)
qed

text \<open>
  C1, amended. Over every sequence of calls, with any behaviour of the storage engine, the
  balance of a user that starts non-negative stays non-negative, and the final balance is
  the initial balance minus the sum of the amounts of the conditional updates on that user
  that affected a row and whose transaction was committed. A single call changes the
  balance of a user only by subtracting its amount, and only when the balance was at least
  that amount.
\<close>

theorem balance_is_initial_minus_committed:
  assumes "users d u = Some b0" and "0 \<le> b0"
    and "\<forall>(uid, dto, key) \<in> set calls. matchesDecimal (amount dto)"
  shows "(\<exists>b. users (runAll W calls d) u = Some b \<and> 0 \<le> b \<and>
            b = b0 - committedTotal u (newEvents d (runAll W calls d))) \<and>
         (\<forall>uid dto key b'.
            users (snd (createTransaction W uid dto key d)) u = Some b' \<and> b' \<noteq> b0 \<longrightarrow>
            uid = u \<and> (\<exists>a. castNumeric (amount dto) = Some a \<and> a \<le> b0 \<and> b' = b0 - a))"
proof (rule conjI)
  from runAll_ledger[OF assms(1,2), of W calls]
  obtain b where b: "users (runAll W calls d) u = Some b" "0 \<le> b"
    "\<forall>rest. committedFrom u 0 (newEvents d (runAll W calls d) @ rest) =
        (b0 - b) + committedFrom u 0 rest"
    by blast
  from b(3)[rule_format, of "[]"] have "committedTotal u (newEvents d (runAll W calls d)) = b0 - b"
    by (simp add: committedTotal_def)
  with b(1,2) show "\<exists>b. users (runAll W calls d) u = Some b \<and> 0 \<le> b \<and>
            b = b0 - committedTotal u (newEvents d (runAll W calls d))"
    by simp
next
  show "\<forall>uid dto key b'.
      users (snd (createTransaction W uid dto key d)) u = Some b' \<and> b' \<noteq> b0 \<longrightarrow>
      uid = u \<and> (\<exists>a. castNumeric (amount dto) = Some a \<and> a \<le> b0 \<and> b' = b0 - a)"
  proof (intro allI impI)
    fix uid dto key b'
    assume changed: "users (snd (createTransaction W uid dto key d)) u = Some b' \<and> b' \<noteq> b0"
    obtain r d1 where call: "createTransaction W uid dto key d = (r, d1)"
      by (cases "createTransaction W uid dto key d")
    from CT_ledger[OF call] changed assms(1)
    show "uid = u \<and> (\<exists>a. castNumeric (amount dto) = Some a \<and> a \<le> b0 \<and> b' = b0 - a)"
      unfolding call snd_conv by (auto split: if_splits)
  qed
qed

theorem balance_is_initial_minus_committed_witness:
  "users testDb 1 = Some 100000 \<and> (0::int) \<le> 100000 \<and>
   matchesDecimal (amount (debit ''100'')) \<and>
   users (runAll calmEngine sentTwice testDb) 1 = Some 90000 \<and>
   committedTotal 1 (newEvents testDb (runAll calmEngine sentTwice testDb)) = 10000 \<and>
   (\<exists>a. castNumeric (amount (debit ''100'')) = Some a \<and> a \<le> 100000 \<and> 90000 = 100000 - a)"
proof -
  have pre: "users testDb 1 = Some 100000" "(0::int) \<le> 100000"
    "\<forall>(uid, dto, key) \<in> set sentTwice. matchesDecimal (amount dto)"
    by (simp_all add: sentTwice_def amount_defs)
  have after: "users (runAll calmEngine sentTwice testDb) 1 = Some 90000"
    by (simp add: sentTwice_run)
  have single: "users (snd (createTransaction calmEngine 1 (debit ''100'') ''k'' testDb)) 1 = Some 90000"
    by (subst call_committed[where b = 100000 and a = 10000]) (simp_all add: amount_defs)
  note claim = balance_is_initial_minus_committed[OF pre, of calmEngine]
  from claim after have "(90000::int) = 100000 - committedTotal 1 (newEvents testDb (runAll calmEngine sentTwice testDb))"
    by auto
  then have total: "committedTotal 1 (newEvents testDb (runAll calmEngine sentTwice testDb)) = 10000"
    by simp
  from claim
  have "users (snd (createTransaction calmEngine 1 (debit ''100'') ''k'' testDb)) 1 = Some 90000 \<and>
      (90000::int) \<noteq> 100000 \<longrightarrow>
      (\<exists>a. castNumeric (amount (debit ''100'')) = Some a \<and> a \<le> 100000 \<and> 90000 = 100000 - a)"
    by blast
  with single
  have guard: "\<exists>a. castNumeric (amount (debit ''100'')) = Some a \<and> a \<le> 100000 \<and> 90000 = 100000 - a"
    by simp
  have "matchesDecimal (amount (debit ''100''))"
    by (simp add: amount_defs)
  with pre(1,2) after total guard show ?thesis by blast
qed

section \<open>Further properties\<close>

text \<open>
  An invocation adds no row, or adds one row under its key, which no stored row had.
\<close>

lemma PT_history:
  assumes "processTransaction W uid dto key d = (r, d')"
  shows "transaction_history d' = transaction_history d \<or>
         (find (\<lambda>r. col_idempotency_key r = key) (transaction_history d) = None \<and>
          (\<exists>row. col_idempotency_key row = key \<and>
             transaction_history d' = transaction_history d @ [row]))"
  using assms
proof (cases rule: processTransaction_cases)
  case (committed v)
  from scope_committed[OF committed(4)] show ?thesis
    by auto
next
  case (aborted err d2)
  from scope_aborted[OF aborted(3)] onError_outcome[OF aborted(4)] show ?thesis
    by simp
qed simp_all

lemma CT_history:
  assumes "createTransaction W uid dto key d = (r, d')"
  shows "transaction_history d' = transaction_history d \<or>
         (find (\<lambda>r. col_idempotency_key r = key) (transaction_history d) = None \<and>
          (\<exists>row. col_idempotency_key row = key \<and>
             transaction_history d' = transaction_history d @ [row]))"
proof -
  obtain s0 where s0: "retried (EvUpdate uid (amount dto) (Some 0)) d s0"
    "processTransaction W uid dto key s0 = (r, d')"
    using CT_last[of uid dto d W key] assms by auto
  from s0(1) have "transaction_history s0 = transaction_history d"
    by (simp add: retried_def)
  with PT_history[OF s0(2)] show ?thesis by simp
qed

text \<open>
  The unique index holds over any sequence of calls and any behaviour of the storage
  engine: if no two stored records share an idempotency key, none do afterwards.
\<close>

theorem idempotency_keys_stay_unique:
  "distinct (map col_idempotency_key (transaction_history d)) \<Longrightarrow>
   distinct (map col_idempotency_key (transaction_history (runAll W calls d)))"
proof (induction calls arbitrary: d)
  case Nil
  then show ?case by simp
next
  case (Cons c calls)
  obtain uid dto key where c: "c = (uid, dto, key)"
    by (cases c)
  obtain r d1 where call: "createTransaction W uid dto key d = (r, d1)"
    by (cases "createTransaction W uid dto key d")
  have "distinct (map col_idempotency_key (transaction_history d1))"
    using CT_history[OF call]
  proof (elim disjE conjE exE)
    assume "transaction_history d1 = transaction_history d"
    with Cons.prems show ?thesis by simp
  next
    fix row
    assume fresh: "find (\<lambda>r. col_idempotency_key r = key) (transaction_history d) = None"
      and row: "col_idempotency_key row = key"
        "transaction_history d1 = transaction_history d @ [row]"
    from fresh have "key \<notin> col_idempotency_key ` set (transaction_history d)"
      unfolding find_None_iff by blast
    with row Cons.prems show ?thesis by simp
  qed
  from Cons.IH[OF this] show ?case
    by (simp add: c call)
qed

theorem idempotency_keys_stay_unique_witness:
  "distinct (map col_idempotency_key (transaction_history testDb)) \<and>
   distinct (map col_idempotency_key (transaction_history (runAll calmEngine sentTwice testDb))) \<and>
   length (transaction_history (runAll calmEngine sentTwice testDb)) = 1"
proof -
  have pre: "distinct (map col_idempotency_key (transaction_history testDb))"
    by simp
  have one: "length (transaction_history (runAll calmEngine sentTwice testDb)) = 1"
    by (simp add: sentTwice_run)
  from idempotency_keys_stay_unique[OF pre, of calmEngine sentTwice] pre one
  show ?thesis by blast
qed

text \<open>
  A serialization failure at commit is absorbed by the retry loop: the first invocation is
  rolled back, the second commits; the caller gets the record, the balance is decremented
  once and one row exists.
\<close>

lemma flakyEngine_simps [simp]:
  "fault (flakyEngine n) st =
     (if n = 0 \<and> st = AtCommit then Some (QueryFault serializationFailure) else None)"
  "uuid (flakyEngine n) = ''tx-'' @ showNat n" "now (flakyEngine n) = 1700000000000 + n"
  by (simp_all add: flakyEngine_def)

theorem serialization_failure_retried_once:
  "fst (processTransaction flakyEngine 1 (debit ''100'') ''k'' testDb) =
     Inl (QueryFailedError serializationFailure) \<and>
   fst (createTransaction flakyEngine 1 (debit ''100'') ''k'' testDb) =
     Inr \<lparr>id' = ''tx-1'', userId = 1, TransactionHistory.action = DEBIT,
          TransactionHistory.amount = ''100'', idempotencyKey = ''k'',
          ts = 1700000000001\<rparr> \<and>
   attempts (snd (createTransaction flakyEngine 1 (debit ''100'') ''k'' testDb)) = 2 \<and>
   users (snd (createTransaction flakyEngine 1 (debit ''100'') ''k'' testDb)) 1 = Some 90000 \<and>
   length (transaction_history (snd (createTransaction flakyEngine 1 (debit ''100'') ''k'' testDb))) = 1 \<and>
   newEvents testDb (snd (createTransaction flakyEngine 1 (debit ''100'') ''k'' testDb)) =
     [EvExists 1, EvBegin, EvUpdate 1 ''100'' (Some 1), EvSave ''k'' True, EvRollback,
      EvExists 1, EvBegin, EvUpdate 1 ''100'' (Some 1), EvSave ''k'' True, EvCommit]"
proof -
  have amt: "castNumeric ''100'' = Some 10000"
    by (simp add: amount_defs)
  have retryable: "isRetryableError (QueryFailedError serializationFailure)"
    by (simp add: isRetryableError_def serializationFailure_def)
  have lost: "processTransaction flakyEngine 1 (debit ''100'') ''k'' testDb =
    (Inl (QueryFailedError serializationFailure),
     testDb\<lparr>attempts := 1,
       trace := [EvExists 1, EvBegin, EvUpdate 1 ''100'' (Some 1), EvSave ''k'' True,
                 EvRollback]\<rparr>)"
    by (simp add: attempt_defs Let_def amt isIdempotencyError_def serializationFailure_def)
  let ?d1 = "testDb\<lparr>attempts := 1,
       trace := [EvExists 1, EvBegin, EvUpdate 1 ''100'' (Some 1), EvSave ''k'' True,
                 EvRollback]\<rparr>"
  have won: "processTransaction flakyEngine 1 (debit ''100'') ''k'' ?d1 =
    (Inr \<lparr>id' = ''tx-1'', userId = 1, TransactionHistory.action = DEBIT,
          TransactionHistory.amount = ''100'', idempotencyKey = ''k'',
          ts = 1700000000001\<rparr>,
     ?d1\<lparr>attempts := 2, users := [1 \<mapsto> 90000],
       transaction_history :=
         [\<lparr>col_id = ''tx-1'', col_user_id = 1, col_action = DEBIT, col_amount = 10000,
           col_idempotency_key = ''k'', col_ts = 1700000000001\<rparr>],
       trace := [EvExists 1, EvBegin, EvUpdate 1 ''100'' (Some 1), EvSave ''k'' True,
                 EvRollback,
                 EvExists 1, EvBegin, EvUpdate 1 ''100'' (Some 1), EvSave ''k'' True,
                 EvCommit]\<rparr>)"
    by (simp add: attempt_defs Let_def amt showNat.simps digitChar_def)
  have "createTransaction flakyEngine 1 (debit ''100'') ''k'' testDb =
      executeWithRetry (processTransaction flakyEngine 1 (debit ''100'') ''k'') 2 ?d1"
    unfolding createTransaction_def
    using retry_again[of "processTransaction flakyEngine 1 (debit ''100'') ''k''" testDb
        "QueryFailedError serializationFailure" 1] retryable
    by (simp add: lost MAX_RETRIES_def numeral_2_eq_2)
  also have "\<dots> = processTransaction flakyEngine 1 (debit ''100'') ''k'' ?d1"
  proof (rule retry_stop)
    show "\<forall>e. fst (processTransaction flakyEngine 1 (debit ''100'') ''k'' ?d1) = Inl e \<longrightarrow>
        \<not> (isRetryableError e \<and> 2 < MAX_RETRIES)"
      unfolding won by simp
  qed
  finally have call: "createTransaction flakyEngine 1 (debit ''100'') ''k'' testDb =
      processTransaction flakyEngine 1 (debit ''100'') ''k'' ?d1" .
  show ?thesis
    unfolding call won lost fst_conv snd_conv by (simp add: newEvents_def)
qed

text \<open>
  Three debits of 100, 200 and 150 in sequence against 1000.00 leave 550.00 and three
  rows, in the order of the calls.
\<close>

theorem three_sequential_debits:
  "users (runAll calmEngine threeDebits testDb) 1 = Some 55000 \<and>
   map col_idempotency_key (transaction_history (runAll calmEngine threeDebits testDb)) =
     [''seq-1'', ''seq-2'', ''seq-3''] \<and>
   map col_amount (transaction_history (runAll calmEngine threeDebits testDb)) =
     [10000, 20000, 15000]"
proof -
  have amt: "castNumeric ''100'' = Some 10000" "castNumeric ''200'' = Some 20000"
    "castNumeric ''150'' = Some 15000"
    by (simp_all add: amount_defs)
  let ?r1 = "\<lparr>col_id = ''tx-0'', col_user_id = 1, col_action = DEBIT, col_amount = 10000,
    col_idempotency_key = ''seq-1'', col_ts = 1700000000000\<rparr>"
  let ?r2 = "\<lparr>col_id = ''tx-1'', col_user_id = 1, col_action = DEBIT, col_amount = 20000,
    col_idempotency_key = ''seq-2'', col_ts = 1700000000001\<rparr>"
  let ?t1 = "[EvExists 1, EvBegin, EvUpdate 1 ''100'' (Some 1), EvSave ''seq-1'' True, EvCommit]"
  let ?t2 = "?t1 @ [EvExists 1, EvBegin, EvUpdate 1 ''200'' (Some 1), EvSave ''seq-2'' True, EvCommit]"
  let ?d1 = "testDb\<lparr>attempts := 1, users := [1 \<mapsto> 90000], transaction_history := [?r1],
    trace := ?t1\<rparr>"
  let ?d2 = "testDb\<lparr>attempts := 2, users := [1 \<mapsto> 70000], transaction_history := [?r1, ?r2],
    trace := ?t2\<rparr>"
  have s1: "snd (createTransaction calmEngine 1 (debit ''100'') ''seq-1'' testDb) = ?d1"
    by (subst call_committed[where b = 100000 and a = 10000])
       (simp_all add: amt showNat.simps digitChar_def)
  have s2: "snd (createTransaction calmEngine 1 (debit ''200'') ''seq-2'' ?d1) = ?d2"
    by (subst call_committed[where b = 90000 and a = 20000])
       (simp_all add: amt showNat.simps digitChar_def)
  have s3: "users (snd (createTransaction calmEngine 1 (debit ''150'') ''seq-3'' ?d2)) 1 = Some 55000"
    "map col_idempotency_key
       (transaction_history (snd (createTransaction calmEngine 1 (debit ''150'') ''seq-3'' ?d2))) =
     [''seq-1'', ''seq-2'', ''seq-3'']"
    "map col_amount
       (transaction_history (snd (createTransaction calmEngine 1 (debit ''150'') ''seq-3'' ?d2))) =
     [10000, 20000, 15000]"
    by (subst call_committed[where b = 70000 and a = 15000], simp_all add: amt)+
  show ?thesis
    unfolding threeDebits_def runAll.simps s1 s2 using s3 by blast
qed

text \<open>
  Two debits of 600 under distinct keys against 1000.00: the first succeeds, the second
  fails with insufficient-funds; the balance is 400.00 and one row exists.
\<close>

theorem no_double_spend:
  "(\<exists>saved. fst (createTransaction calmEngine 1 (debit ''600'') ''double-spend-1'' testDb) =
      Inr saved) \<and>
   fst (createTransaction calmEngine 1 (debit ''600'') ''double-spend-2''
          (snd (createTransaction calmEngine 1 (debit ''600'') ''double-spend-1'' testDb))) =
     Inl (ConflictException ''Insufficient funds'') \<and>
   users (runAll calmEngine doubleSpend testDb) 1 = Some 40000 \<and>
   length (transaction_history (runAll calmEngine doubleSpend testDb)) = 1"
proof -
  have amt: "castNumeric ''600'' = Some 60000"
    by (simp add: amount_defs)
  let ?d1 = "testDb\<lparr>attempts := 1, users := [1 \<mapsto> 40000],
    transaction_history :=
      [\<lparr>col_id = ''tx-0'', col_user_id = 1, col_action = DEBIT, col_amount = 60000,
        col_idempotency_key = ''double-spend-1'', col_ts = 1700000000000\<rparr>],
    trace := [EvExists 1, EvBegin, EvUpdate 1 ''600'' (Some 1), EvSave ''double-spend-1'' True,
              EvCommit]\<rparr>"
  have first: "\<exists>saved. fst (createTransaction calmEngine 1 (debit ''600'') ''double-spend-1'' testDb) =
      Inr saved"
    by (subst call_committed[where b = 100000 and a = 60000]) (simp_all add: amt)
  have s1: "snd (createTransaction calmEngine 1 (debit ''600'') ''double-spend-1'' testDb) = ?d1"
    by (subst call_committed[where b = 100000 and a = 60000])
       (simp_all add: amt showNat.simps digitChar_def)
  have second: "createTransaction calmEngine 1 (debit ''600'') ''double-spend-2'' ?d1 =
    (Inl (ConflictException ''Insufficient funds''),
     ?d1\<lparr>attempts := Suc (attempts ?d1),
        trace := trace ?d1 @ [EvExists 1, EvBegin, EvUpdate 1 (amount (debit ''600'')) (Some 0),
                              EvRollback]\<rparr>)"
    by (rule call_insufficient[where b = 40000 and a = 60000]) (simp_all add: amt)
  show ?thesis
    unfolding doubleSpend_def runAll.simps s1 second fst_conv snd_conv
    using first by simp
qed

end
